theory Spec2Isabelle
  imports Main
begin

section \<open>Go strings\<close>

text \<open>
  A Go string is a sequence of bytes, here a \<^typ>\<open>string\<close>. The functions of package
  \<open>strings\<close> that the gateway calls are written out as the Go library computes them.
\<close>

definition HasPrefix :: "string \<Rightarrow> string \<Rightarrow> bool" where
  "HasPrefix s p \<longleftrightarrow> length p \<le> length s \<and> take (length p) s = p"

definition HasSuffix :: "string \<Rightarrow> string \<Rightarrow> bool" where
  "HasSuffix s suf \<longleftrightarrow> length suf \<le> length s \<and> drop (length s - length suf) s = suf"

fun Contains :: "string \<Rightarrow> string \<Rightarrow> bool" where
  "Contains [] sub = (sub = [])"
| "Contains (c # s) sub = (HasPrefix (c # s) sub \<or> Contains s sub)"

subsection \<open>UTF-8 and \<open>strings.ToLower\<close>\<close>

text \<open>
  \<open>strings.ToLower\<close> works on the characters (runes) that the bytes encode in UTF-8. A
  rune is a natural number here. \<open>utf8.DecodeRuneInString\<close> returns the first rune of a
  string and its width in bytes; a byte that starts no well-formed sequence is decoded
  as \<open>RuneError\<close> (U+FFFD) of width 1. \<open>first_byte\<close> is the library's table \<open>first\<close> for
  the lead bytes of multi-byte sequences: the length of the sequence and the range
  accepted for the second byte.
\<close>

definition RuneError :: nat where
  "RuneError = 0xFFFD"

definition first_byte :: "nat \<Rightarrow> (nat \<times> nat \<times> nat) option" where
  "first_byte s0 =
     (if 0xC2 \<le> s0 \<and> s0 \<le> 0xDF then Some (2, 0x80, 0xBF)
      else if s0 = 0xE0 then Some (3, 0xA0, 0xBF)
      else if s0 = 0xED then Some (3, 0x80, 0x9F)
      else if 0xE1 \<le> s0 \<and> s0 \<le> 0xEF then Some (3, 0x80, 0xBF)
      else if s0 = 0xF0 then Some (4, 0x90, 0xBF)
      else if 0xF1 \<le> s0 \<and> s0 \<le> 0xF3 then Some (4, 0x80, 0xBF)
      else if s0 = 0xF4 then Some (4, 0x80, 0x8F)
      else None)"

definition DecodeRuneInString :: "string \<Rightarrow> nat \<times> nat" where
  "DecodeRuneInString s =
     (case map of_char s of
        [] \<Rightarrow> (RuneError, 0)
      | s0 # rest \<Rightarrow>
          if s0 < 0x80 then (s0, 1)
          else
            (case first_byte s0 of
               None \<Rightarrow> (RuneError, 1)
             | Some (sz, lo, hi) \<Rightarrow>
                 if length s < sz then (RuneError, 1)
                 else
                   (let s1 = rest ! 0 in
                    if s1 < lo \<or> hi < s1 then (RuneError, 1)
                    else if sz \<le> 2 then ((s0 mod 32) * 64 + s1 mod 64, 2)
                    else
                      (let s2 = rest ! 1 in
                       if s2 < 0x80 \<or> 0xBF < s2 then (RuneError, 1)
                       else if sz \<le> 3
                         then ((s0 mod 16) * 4096 + (s1 mod 64) * 64 + s2 mod 64, 3)
                       else
                         (let s3 = rest ! 2 in
                          if s3 < 0x80 \<or> 0xBF < s3 then (RuneError, 1)
                          else ((s0 mod 8) * 262144 + (s1 mod 64) * 4096 +
                                (s2 mod 64) * 64 + s3 mod 64, 4))))))"

text \<open>
  The runes of a string, as \<open>for _, c := range s\<close> yields them. The width of the rune
  decoded from a non-empty string is at least 1, so \<open>drop (width - 1) s\<close> is what is
  left of \<open>c # s\<close> after it.
\<close>

fun runes :: "string \<Rightarrow> nat list" where
  "runes [] = []"
| "runes (c # s) =
     (case DecodeRuneInString (c # s) of (r, width) \<Rightarrow> r # runes (drop (width - 1) s))"

text \<open>
  \<open>utf8.AppendRune\<close>: the UTF-8 bytes of a rune; a surrogate or a value beyond U+10FFFF
  is written as \<open>RuneError\<close>.
\<close>

definition EncodeRune :: "nat \<Rightarrow> string" where
  "EncodeRune r =
     (if r \<le> 0x7F then [char_of r]
      else if r \<le> 0x7FF then [char_of (0xC0 + r div 64), char_of (0x80 + r mod 64)]
      else if 0x10FFFF < r \<or> (0xD800 \<le> r \<and> r \<le> 0xDFFF)
        then [char_of (0xEF :: nat), char_of (0xBF :: nat), char_of (0xBD :: nat)]
      else if r \<le> 0xFFFF
        then [char_of (0xE0 + r div 4096), char_of (0x80 + (r div 64) mod 64),
              char_of (0x80 + r mod 64)]
      else [char_of (0xF0 + r div 262144), char_of (0x80 + (r div 4096) mod 64),
            char_of (0x80 + (r div 64) mod 64), char_of (0x80 + r mod 64)])"

text \<open>
  \<open>unicode.ToLower\<close>: an ASCII rune is lowered by arithmetic; any other rune is looked up
  in the case table of the Go library, \<open>unicode.To(unicode.LowerCase, r)\<close>. The table is
  not part of the repository and is the parameter \<open>tbl\<close>. It sends some runes beyond
  ASCII to ASCII letters (U+0130 to \<open>i\<close>, U+212A to \<open>k\<close>).
\<close>

definition unicode_ToLower :: "(nat \<Rightarrow> nat) \<Rightarrow> nat \<Rightarrow> nat" where
  "unicode_ToLower tbl r =
     (if r \<le> 0x7F then (if 65 \<le> r \<and> r \<le> 90 then r + 32 else r) else tbl r)"

text \<open>
  \<open>strings.Map\<close> for a mapping that returns no negative rune: every rune of the string
  is replaced by the encoding of its image. (The library copies the bytes of a
  well-formed rune that the mapping leaves alone; these are its encoding.)
\<close>

definition strings_Map :: "(nat \<Rightarrow> nat) \<Rightarrow> string \<Rightarrow> string" where
  "strings_Map mapping s = concat (map (\<lambda>c. EncodeRune (mapping c)) (runes s))"

definition lower_byte :: "char \<Rightarrow> char" where
  "lower_byte c =
     (let n = (of_char c :: nat) in if 65 \<le> n \<and> n \<le> 90 then char_of (n + 32) else c)"

text \<open>
  \<open>strings.ToLower\<close>: a string of ASCII bytes is lowered byte by byte, any other string
  through \<open>strings.Map(unicode.ToLower, s)\<close>.
\<close>

definition ToLower :: "(nat \<Rightarrow> nat) \<Rightarrow> string \<Rightarrow> string" where
  "ToLower tbl s =
     (if list_all (\<lambda>c. (of_char c :: nat) < 0x80) s then map lower_byte s
      else strings_Map (unicode_ToLower tbl) s)"

text \<open>
  \<open>strings.Split(s, "/")\<close>: the pieces of \<open>s\<close> between the separators; never the empty
  slice, so \<open>parts[len(parts)-1]\<close> is always in range.
\<close>

fun Split :: "string \<Rightarrow> char \<Rightarrow> string list" where
  "Split [] sep = [[]]"
| "Split (c # s) sep =
     (if c = sep then [] # Split s sep
      else (case Split s sep of [] \<Rightarrow> [[c]] | p # ps \<Rightarrow> (c # p) # ps))"

section \<open>The provider and its catalog snapshot\<close>

text \<open>Go errors are carried by their message, the text of \<open>err.Error()\<close>.\<close>

datatype go_error = Error (message: string)

text \<open>The fields of the go-openai types that the gateway reads.\<close>

record api_model =
  ID :: string

record ChatCompletionMessage =
  Role :: string
  Content :: string

record ChatCompletionChoice =
  Message :: ChatCompletionMessage

record ChatCompletionResponse =
  Choices :: "ChatCompletionChoice list"

record ChatCompletionStreamChoice =
  Delta :: ChatCompletionMessage
  FinishReason :: string

record ChatCompletionStreamResponse =
  StreamChoices :: "ChatCompletionStreamChoice list"

text \<open>
  One call of \<open>stream.Recv()\<close> returns a chunk, \<open>io.EOF\<close> or another error. A backend
  stream is the list of what its successive calls return.
\<close>

datatype recv = RecvOk ChatCompletionStreamResponse | RecvEOF | RecvErr go_error

text \<open>
  The requests sent through \<open>o.client\<close>. The provider's \<open>client\<close> field is modelled by
  the log of the requests made so far, oldest first.
\<close>

datatype upstream_call =
    CallListModels
  | CallChat "ChatCompletionMessage list" string
  | CallChatStream "ChatCompletionMessage list" string

record OpenrouterProvider =
  client :: "upstream_call list"
  modelNames :: "string list"

text \<open>
  What lies outside the process: the answers of the upstream API, the clock
  (\<open>time.Now().Format(time.RFC3339)\<close>, indexed by the number of lines the handler has
  written so far), \<open>sha256\<close> printed in hexadecimal, and whether the response writer
  passes the type assertion \<open>w.(http.Flusher)\<close>. \<open>unicode_lower\<close> is the lower-case table of
  the Go library for the runes beyond ASCII.
\<close>

record env =
  ListModels :: "go_error + api_model list"
  CreateChatCompletion :: "ChatCompletionMessage list \<Rightarrow> string \<Rightarrow> go_error + ChatCompletionResponse"
  CreateChatCompletionStream :: "ChatCompletionMessage list \<Rightarrow> string \<Rightarrow> go_error + recv list"
  clock :: "nat \<Rightarrow> string"
  sha256_hex :: "string \<Rightarrow> string"
  unicode_lower :: "nat \<Rightarrow> nat"
  is_flusher :: bool

text \<open>
  The structs \<open>ModelDetails\<close> and \<open>Model\<close>. The field \<open>Model\<close> of the struct \<open>Model\<close>
  is called \<open>ModelName\<close> here; sizes and lengths are \<open>int64\<close> constants far from overflow.
\<close>

record ModelDetails =
  ParentModel :: string
  Format :: string
  Family :: string
  Families :: "string list"
  ParameterSize :: string
  QuantizationLevel :: string

record Model =
  Name :: string
  ModelName :: string
  ModifiedAt :: string
  Size :: int
  Digest :: string
  Details :: ModelDetails
  ContextLength :: int

subsection \<open>GetModels\<close>

definition parameterSize_of :: "string \<Rightarrow> string" where
  "parameterSize_of nameToCheck =
     (if Contains nameToCheck ''70b'' then ''70B''
      else if Contains nameToCheck ''13b'' then ''13B''
      else if Contains nameToCheck ''3b'' then ''3B''
      else if Contains nameToCheck ''1b'' then ''1B''
      else ''7B'')"

definition family_of :: "string \<Rightarrow> string" where
  "family_of nameToCheck =
     (if Contains nameToCheck ''llama'' then ''llama''
      else if Contains nameToCheck ''mistral'' then ''mistral''
      else if Contains nameToCheck ''gemma'' then ''gemma''
      else if Contains nameToCheck ''claude'' then ''claude''
      else if Contains nameToCheck ''gpt'' then ''gpt''
      else ''transformer'')"

text \<open>The body of the loop of \<open>GetModels\<close> for one \<open>apiModel\<close>: the model struct it builds.\<close>

definition build_model :: "env \<Rightarrow> string \<Rightarrow> api_model \<Rightarrow> Model" where
  "build_model e currentTime apiModel =
     (let parts = Split (ID apiModel) CHR ''/'';
          name = last parts;
          nameToCheck = ToLower (unicode_lower e) (ID apiModel @ '' '' @ name);
          parameterSize = parameterSize_of nameToCheck;
          family = family_of nameToCheck;
          digest = sha256_hex e (ID apiModel)
      in \<lparr> Name = name, ModelName = name, ModifiedAt = currentTime, Size = 270898672,
           Digest = digest,
           Details = \<lparr> ParentModel = '''', Format = ''gguf'', Family = family,
                       Families = [family], ParameterSize = parameterSize,
                       QuantizationLevel = ''Q4_K_M'' \<rparr>,
           ContextLength = 200000 \<rparr>)"

text \<open>
  The loop over \<open>modelsResponse.Models\<close>: each round appends the identifier to
  \<open>o.modelNames\<close> and the model struct to \<open>models\<close>.
\<close>

fun GetModels_loop ::
  "env \<Rightarrow> string \<Rightarrow> api_model list \<Rightarrow> OpenrouterProvider \<Rightarrow> Model list
     \<Rightarrow> Model list \<times> OpenrouterProvider" where
  "GetModels_loop e currentTime [] prov models = (models, prov)"
| "GetModels_loop e currentTime (apiModel # rest) prov models =
     GetModels_loop e currentTime rest
       (prov\<lparr>modelNames := modelNames prov @ [ID apiModel]\<rparr>)
       (models @ [build_model e currentTime apiModel])"

definition GetModels :: "env \<Rightarrow> OpenrouterProvider \<Rightarrow> (go_error + Model list) \<times> OpenrouterProvider" where
  "GetModels e prov =
     (let currentTime = clock e 0;
          prov1 = prov\<lparr>client := client prov @ [CallListModels]\<rparr>
      in case ListModels e of
           Inl err \<Rightarrow> (Inl err, prov1)
         | Inr apiModels \<Rightarrow>
             (case GetModels_loop e currentTime apiModels (prov1\<lparr>modelNames := []\<rparr>) [] of
                (models, prov2) \<Rightarrow> (Inr models, prov2)))"

subsection \<open>GetFullModelName\<close>

text \<open>The two loops over \<open>o.modelNames\<close>: the first entry the test accepts, if any.\<close>

fun exact_match :: "string list \<Rightarrow> string \<Rightarrow> string option" where
  "exact_match [] alias = None"
| "exact_match (fullName # rest) alias =
     (if fullName = alias then Some fullName else exact_match rest alias)"

fun suffix_match :: "string list \<Rightarrow> string \<Rightarrow> string option" where
  "suffix_match [] alias = None"
| "suffix_match (fullName # rest) alias =
     (if HasSuffix fullName alias then Some fullName else suffix_match rest alias)"

definition GetFullModelName ::
  "env \<Rightarrow> OpenrouterProvider \<Rightarrow> string \<Rightarrow> (go_error + string) \<times> OpenrouterProvider" where
  "GetFullModelName e prov alias =
     (let fetched =
            (if length (modelNames prov) = 0
             then (case GetModels e prov of
                     (Inl err, prov1) \<Rightarrow> (Some (Error (''failed to get models: '' @ message err)), prov1)
                   | (Inr _, prov1) \<Rightarrow> (None, prov1))
             else (None, prov))
      in case fetched of
           (Some err, prov1) \<Rightarrow> (Inl err, prov1)
         | (None, prov1) \<Rightarrow>
             (case exact_match (modelNames prov1) alias of
                Some fullName \<Rightarrow> (Inr fullName, prov1)
              | None \<Rightarrow>
                  (case suffix_match (modelNames prov1) alias of
                     Some fullName \<Rightarrow> (Inr fullName, prov1)
                   | None \<Rightarrow> (Inr alias, prov1))))"

definition Chat ::
  "env \<Rightarrow> OpenrouterProvider \<Rightarrow> ChatCompletionMessage list \<Rightarrow> string
     \<Rightarrow> (go_error + ChatCompletionResponse) \<times> OpenrouterProvider" where
  "Chat e prov messages modelName =
     (CreateChatCompletion e messages modelName,
      prov\<lparr>client := client prov @ [CallChat messages modelName]\<rparr>)"

definition ChatStream ::
  "env \<Rightarrow> OpenrouterProvider \<Rightarrow> ChatCompletionMessage list \<Rightarrow> string
     \<Rightarrow> (go_error + recv list) \<times> OpenrouterProvider" where
  "ChatStream e prov messages modelName =
     (CreateChatCompletionStream e messages modelName,
      prov\<lparr>client := client prov @ [CallChatStream messages modelName]\<rparr>)"

section \<open>The stream reframer\<close>

text \<open>
  A line of the response is the JSON document that \<open>json.Marshal\<close> prints from a
  \<open>map[string]interface{}\<close>; it is kept as the map itself. Marshalling a map of strings,
  booleans, integers and such maps cannot fail, so the two \<open>return\<close>s after a failed
  \<open>json.Marshal\<close> are never taken. The results of \<open>fmt.Fprintf\<close> are not looked at by the
  handlers.
\<close>

datatype json =
    JString string
  | JBool bool
  | JNumber int
  | JArray "json list"
  | JObject "(string \<times> json) list"

definition field :: "string \<Rightarrow> json \<Rightarrow> json option" where
  "field k j = (case j of JObject kvs \<Rightarrow> map_of kvs k | _ \<Rightarrow> None)"

text \<open>
  How a handler's run ends: it answered with one \<open>c.JSON\<close> document and returned, it
  streamed to the end and wrote the final line, it returned early from the streaming
  part, it panicked on an index out of range, or it is still waiting in
  \<open>stream.Recv()\<close> because the backend has sent nothing more.
\<close>

datatype ending = REPLIED | DONE | ABORTED | PANIC | STREAMING

datatype loop_exit = Break | Return | Panic | Waiting

definition error_event :: "go_error \<Rightarrow> json" where
  "error_event err = JObject [(''error'', JString (''Stream error: '' @ message err))]"

definition track_finish :: "ChatCompletionStreamResponse \<Rightarrow> string \<Rightarrow> string" where
  "track_finish response lastFinishReason =
     (case StreamChoices response of
        [] \<Rightarrow> lastFinishReason
      | c # _ \<Rightarrow> if FinishReason c \<noteq> '''' then FinishReason c else lastFinishReason)"

subsection \<open>POST /api/chat\<close>

definition chat_chunk_event :: "string \<Rightarrow> string \<Rightarrow> string \<Rightarrow> json" where
  "chat_chunk_event fullModelName created_at content =
     JObject [(''model'', JString fullModelName),
              (''created_at'', JString created_at),
              (''message'', JObject [(''role'', JString ''assistant''),
                                     (''content'', JString content)]),
              (''done'', JBool False)]"

definition chat_final_event :: "string \<Rightarrow> string \<Rightarrow> string \<Rightarrow> json" where
  "chat_final_event fullModelName created_at lastFinishReason =
     JObject [(''model'', JString fullModelName),
              (''created_at'', JString created_at),
              (''message'', JObject [(''role'', JString ''assistant''),
                                     (''content'', JString '''')]),
              (''done'', JBool True),
              (''finish_reason'', JString lastFinishReason),
              (''total_duration'', JNumber 0),
              (''load_duration'', JNumber 0),
              (''prompt_eval_count'', JNumber 0),
              (''eval_count'', JNumber 0),
              (''eval_duration'', JNumber 0)]"

text \<open>
  The \<open>for\<close> loop of the handler. \<open>w\<close> holds the lines written so far. The guard
  \<open>len(response.Choices) > 0\<close> protects the read of the finish reason only; building the
  event reads \<open>response.Choices[0]\<close> again, which panics on a chunk without choices.
\<close>

fun chat_stream_loop ::
  "(nat \<Rightarrow> string) \<Rightarrow> string \<Rightarrow> recv list \<Rightarrow> json list \<Rightarrow> string
     \<Rightarrow> loop_exit \<times> json list \<times> string" where
  "chat_stream_loop now fullModelName [] w lastFinishReason = (Waiting, w, lastFinishReason)"
| "chat_stream_loop now fullModelName (RecvEOF # stream) w lastFinishReason =
     (Break, w, lastFinishReason)"
| "chat_stream_loop now fullModelName (RecvErr err # stream) w lastFinishReason =
     (Return, w @ [error_event err], lastFinishReason)"
| "chat_stream_loop now fullModelName (RecvOk response # stream) w lastFinishReason =
     (let lastFinishReason' = track_finish response lastFinishReason
      in case StreamChoices response of
           [] \<Rightarrow> (Panic, w, lastFinishReason')
         | c # _ \<Rightarrow>
             chat_stream_loop now fullModelName stream
               (w @ [chat_chunk_event fullModelName (now (length w)) (Content (Delta c))])
               lastFinishReason')"

definition chat_stream :: "(nat \<Rightarrow> string) \<Rightarrow> string \<Rightarrow> recv list \<Rightarrow> json list \<times> ending" where
  "chat_stream now fullModelName stream =
     (case chat_stream_loop now fullModelName stream [] '''' of
        (Break, w, lastFinishReason) \<Rightarrow>
          (let lastFinishReason' = (if lastFinishReason = '''' then ''stop'' else lastFinishReason)
           in (w @ [chat_final_event fullModelName (now (length w)) lastFinishReason'], DONE))
      | (Return, w, _) \<Rightarrow> (w, ABORTED)
      | (Panic, w, _) \<Rightarrow> (w, PANIC)
      | (Waiting, w, _) \<Rightarrow> (w, STREAMING))"

subsection \<open>POST /api/generate\<close>

definition generate_chunk_event :: "string \<Rightarrow> string \<Rightarrow> string \<Rightarrow> json" where
  "generate_chunk_event fullModelName created_at content =
     JObject [(''model'', JString fullModelName),
              (''created_at'', JString created_at),
              (''response'', JString content),
              (''done'', JBool False)]"

text \<open>The final map of this handler has no entry for \<open>lastFinishReason\<close>.\<close>

definition generate_final_event :: "string \<Rightarrow> string \<Rightarrow> json" where
  "generate_final_event fullModelName created_at =
     JObject [(''model'', JString fullModelName),
              (''created_at'', JString created_at),
              (''response'', JString ''''),
              (''done'', JBool True),
              (''context'', JArray [JNumber 1, JNumber 2, JNumber 3]),
              (''total_duration'', JNumber 0),
              (''load_duration'', JNumber 0),
              (''prompt_eval_count'', JNumber 0),
              (''prompt_eval_duration'', JNumber 0),
              (''eval_count'', JNumber 0),
              (''eval_duration'', JNumber 0)]"

fun generate_stream_loop ::
  "(nat \<Rightarrow> string) \<Rightarrow> string \<Rightarrow> recv list \<Rightarrow> json list \<Rightarrow> string
     \<Rightarrow> loop_exit \<times> json list \<times> string" where
  "generate_stream_loop now fullModelName [] w lastFinishReason = (Waiting, w, lastFinishReason)"
| "generate_stream_loop now fullModelName (RecvEOF # stream) w lastFinishReason =
     (Break, w, lastFinishReason)"
| "generate_stream_loop now fullModelName (RecvErr err # stream) w lastFinishReason =
     (Return, w @ [error_event err], lastFinishReason)"
| "generate_stream_loop now fullModelName (RecvOk response # stream) w lastFinishReason =
     (let lastFinishReason' = track_finish response lastFinishReason
      in case StreamChoices response of
           [] \<Rightarrow> (Panic, w, lastFinishReason')
         | c # _ \<Rightarrow>
             generate_stream_loop now fullModelName stream
               (w @ [generate_chunk_event fullModelName (now (length w)) (Content (Delta c))])
               lastFinishReason')"

definition generate_stream :: "(nat \<Rightarrow> string) \<Rightarrow> string \<Rightarrow> recv list \<Rightarrow> json list \<times> ending" where
  "generate_stream now fullModelName stream =
     (case generate_stream_loop now fullModelName stream [] '''' of
        (Break, w, lastFinishReason) \<Rightarrow>
          (let lastFinishReason' = (if lastFinishReason = '''' then ''stop'' else lastFinishReason)
           in (w @ [generate_final_event fullModelName (now (length w))], DONE))
      | (Return, w, _) \<Rightarrow> (w, ABORTED)
      | (Panic, w, _) \<Rightarrow> (w, PANIC)
      | (Waiting, w, _) \<Rightarrow> (w, STREAMING))"

section \<open>The handlers\<close>

text \<open>
  \<open>c.ShouldBindJSON(&request)\<close> either fails or fills the request struct; a field the
  body does not give keeps its zero value (the empty string, \<open>nil\<close>). No field carries a
  \<open>binding:"required"\<close> tag. Only the fields the handlers read are kept. Response
  headers are left out.
\<close>

record generate_request =
  gen_Model :: string
  gen_Prompt :: string
  gen_Stream :: "bool option"
  gen_System :: string

record chat_request =
  chat_Model :: string
  chat_Messages :: "ChatCompletionMessage list"
  chat_Stream :: "bool option"

record http_response =
  status :: nat
  body :: "json list"
  ending :: ending

definition JSON :: "nat \<Rightarrow> json \<Rightarrow> http_response" where
  "JSON code obj = \<lparr> status = code, body = [obj], ending = REPLIED \<rparr>"

definition error_body :: "string \<Rightarrow> json" where
  "error_body msg = JObject [(''error'', JString msg)]"

text \<open>
  The status of a streamed answer. \<open>gin.Default()\<close> installs gin's recovery middleware: a
  panic in a handler is recovered and answered with status 500, which takes effect only
  while nothing has been written; once a line has gone out the status is 200.
\<close>

definition stream_status :: "json list \<Rightarrow> ending \<Rightarrow> nat" where
  "stream_status w fin = (if fin = PANIC \<and> w = [] then 500 else 200)"

definition generate_handler ::
  "env \<Rightarrow> OpenrouterProvider \<Rightarrow> generate_request option \<Rightarrow> http_response \<times> OpenrouterProvider" where
  "generate_handler e prov bound =
     (case bound of
        None \<Rightarrow> (JSON 400 (error_body ''Invalid JSON payload''), prov)
      | Some request \<Rightarrow>
          (let messages =
                 (if gen_System request \<noteq> ''''
                  then [\<lparr> Role = ''system'', Content = gen_System request \<rparr>] else [])
                 @ [\<lparr> Role = ''user'', Content = gen_Prompt request \<rparr>]
           in case GetFullModelName e prov (gen_Model request) of
                (Inl err, prov1) \<Rightarrow>
                  (JSON 500 (error_body (''Model not found: '' @ message err)), prov1)
              | (Inr fullModelName, prov1) \<Rightarrow>
                  (let streamRequested = (case gen_Stream request of None \<Rightarrow> True | Some b \<Rightarrow> b)
                   in if \<not> streamRequested then
                        (case Chat e prov1 messages fullModelName of
                           (Inl err, prov2) \<Rightarrow> (JSON 500 (error_body (message err)), prov2)
                         | (Inr response, prov2) \<Rightarrow>
                             (let responseContent =
                                    (case Choices response of
                                       [] \<Rightarrow> '''' | c # _ \<Rightarrow> Content (Message c))
                              in (JSON 200
                                    (JObject [(''model'', JString fullModelName),
                                              (''created_at'', JString (clock e 0)),
                                              (''response'', JString responseContent),
                                              (''done'', JBool True),
                                              (''context'', JArray [JNumber 1, JNumber 2, JNumber 3]),
                                              (''total_duration'', JNumber 0),
                                              (''load_duration'', JNumber 0),
                                              (''prompt_eval_count'', JNumber 0),
                                              (''prompt_eval_duration'', JNumber 0),
                                              (''eval_count'', JNumber 0),
                                              (''eval_duration'', JNumber 0)]), prov2)))
                      else
                        (case ChatStream e prov1 messages fullModelName of
                           (Inl err, prov2) \<Rightarrow> (JSON 500 (error_body (message err)), prov2)
                         | (Inr stream, prov2) \<Rightarrow>
                             if \<not> is_flusher e
                             then (\<lparr> status = 200, body = [], ending = ABORTED \<rparr>, prov2)
                             else (case generate_stream (clock e) fullModelName stream of
                                     (w, fin) \<Rightarrow>
                                       (\<lparr> status = stream_status w fin, body = w, ending = fin \<rparr>, prov2))))))"

definition load_reply :: "env \<Rightarrow> string \<Rightarrow> http_response" where
  "load_reply e model =
     JSON 200 (JObject [(''model'', JString model),
                        (''created_at'', JString (clock e 0)),
                        (''message'', JObject [(''role'', JString ''assistant''),
                                               (''content'', JString '''')]),
                        (''done'', JBool True),
                        (''done_reason'', JString ''load'')])"

definition chat_handler ::
  "env \<Rightarrow> OpenrouterProvider \<Rightarrow> chat_request option \<Rightarrow> http_response \<times> OpenrouterProvider" where
  "chat_handler e prov bound =
     (case bound of
        None \<Rightarrow> (JSON 400 (error_body ''Invalid JSON payload''), prov)
      | Some request \<Rightarrow>
          (let streamRequested = (case chat_Stream request of None \<Rightarrow> True | Some b \<Rightarrow> b)
           in if length (chat_Messages request) = 0 then
                (if streamRequested then (load_reply e (chat_Model request), prov)
                 else (load_reply e (chat_Model request), prov))
              else
                (case GetFullModelName e prov (chat_Model request) of
                   (Inl err, prov1) \<Rightarrow>
                     (JSON 500 (error_body (''Model not found: '' @ message err)), prov1)
                 | (Inr fullModelName, prov1) \<Rightarrow>
                     if \<not> streamRequested then
                       (case Chat e prov1 (chat_Messages request) fullModelName of
                          (Inl err, prov2) \<Rightarrow> (JSON 500 (error_body (message err)), prov2)
                        | (Inr response, prov2) \<Rightarrow>
                            (let responseContent =
                                   (case Choices response of
                                      [] \<Rightarrow> '''' | c # _ \<Rightarrow> Content (Message c))
                             in (JSON 200
                                   (JObject [(''model'', JString fullModelName),
                                             (''created_at'', JString (clock e 0)),
                                             (''message'',
                                                JObject [(''role'', JString ''assistant''),
                                                         (''content'', JString responseContent)]),
                                             (''done'', JBool True),
                                             (''total_duration'', JNumber 0),
                                             (''load_duration'', JNumber 0),
                                             (''prompt_eval_count'', JNumber 0),
                                             (''prompt_eval_duration'', JNumber 0),
                                             (''eval_count'', JNumber 0),
                                             (''eval_duration'', JNumber 0)]), prov2)))
                     else
                       (case GetFullModelName e prov1 (chat_Model request) of
                          (Inl err, prov2) \<Rightarrow> (JSON 404 (error_body (message err)), prov2)
                        | (Inr fullModelName2, prov2) \<Rightarrow>
                            (case ChatStream e prov2 (chat_Messages request) fullModelName2 of
                               (Inl err, prov3) \<Rightarrow> (JSON 500 (error_body (message err)), prov3)
                             | (Inr stream, prov3) \<Rightarrow>
                                 if \<not> is_flusher e
                                 then (\<lparr> status = 200, body = [], ending = ABORTED \<rparr>, prov3)
                                 else (case chat_stream (clock e) fullModelName2 stream of
                                         (w, fin) \<Rightarrow>
                                           (\<lparr> status = stream_status w fin, body = w, ending = fin \<rparr>, prov3)))))))"

section \<open>Vocabulary of the properties\<close>

text \<open>
  The snapshot that \<open>GetFullModelName\<close> searches: the cached one when it is not empty,
  otherwise the one a successful fetch stores; none when that fetch fails.
\<close>

definition consulted_snapshot :: "env \<Rightarrow> OpenrouterProvider \<Rightarrow> string list option" where
  "consulted_snapshot e prov =
     (if modelNames prov \<noteq> [] then Some (modelNames prov)
      else (case ListModels e of Inl _ \<Rightarrow> None | Inr apiModels \<Rightarrow> Some (map ID apiModels)))"

text \<open>
  The alias is a suffix of the identifier and lies after a namespace separator of the
  identifier: some \<open>/\<close> stands in front of it.
\<close>

definition after_separator :: "string \<Rightarrow> string \<Rightarrow> bool" where
  "after_separator alias fullName \<longleftrightarrow>
     HasSuffix fullName alias \<and>
     CHR ''/'' \<in> set (take (length fullName - length alias) fullName)"

text \<open>
  A pattern occurs in a string up to letter case: some run of consecutive characters of
  the string agrees with the pattern character by character, where a character agrees
  with a pattern character when it is that character, its ASCII capital, or a character
  beyond ASCII whose lower case in the Unicode table is that character.
\<close>

definition same_ignoring_case :: "(nat \<Rightarrow> nat) \<Rightarrow> nat \<Rightarrow> char \<Rightarrow> bool" where
  "same_ignoring_case tbl r p \<longleftrightarrow>
     r = of_char p \<or> (65 \<le> r \<and> r \<le> 90 \<and> r + 32 = of_char p) \<or>
     (0x80 \<le> r \<and> tbl r = of_char p)"

fun matches_at :: "('a \<Rightarrow> 'b \<Rightarrow> bool) \<Rightarrow> 'a list \<Rightarrow> 'b list \<Rightarrow> bool" where
  "matches_at P rs [] = True"
| "matches_at P [] (p # ps) = False"
| "matches_at P (r # rs) (p # ps) = (P r p \<and> matches_at P rs ps)"

fun occurs :: "('a \<Rightarrow> 'b \<Rightarrow> bool) \<Rightarrow> 'a list \<Rightarrow> 'b list \<Rightarrow> bool" where
  "occurs P [] pat = matches_at P [] pat"
| "occurs P (r # rs) pat = (matches_at P (r # rs) pat \<or> occurs P rs pat)"

definition occurs_ignoring_case :: "(nat \<Rightarrow> nat) \<Rightarrow> string \<Rightarrow> string \<Rightarrow> bool" where
  "occurs_ignoring_case tbl s pat = occurs (same_ignoring_case tbl) (runes s) pat"

text \<open>A pattern of ASCII characters none of which is a capital letter.\<close>

definition plain_pattern :: "string \<Rightarrow> bool" where
  "plain_pattern pat =
     list_all (\<lambda>p. (of_char p :: nat) < 0x80 \<and>
                   \<not> (65 \<le> (of_char p :: nat) \<and> (of_char p :: nat) \<le> 90)) pat"

text \<open>The cascades as ordered rule lists, the first matching pattern giving the label.\<close>

definition size_rules :: "(string \<times> string) list" where
  "size_rules = [(''70b'', ''70B''), (''13b'', ''13B''), (''3b'', ''3B''), (''1b'', ''1B'')]"

definition family_rules :: "(string \<times> string) list" where
  "family_rules = [(''llama'', ''llama''), (''mistral'', ''mistral''), (''gemma'', ''gemma''),
                   (''claude'', ''claude''), (''gpt'', ''gpt'')]"

definition first_label ::
  "(nat \<Rightarrow> nat) \<Rightarrow> (string \<times> string) list \<Rightarrow> string \<Rightarrow> string \<Rightarrow> string" where
  "first_label tbl rules dflt s =
     (case find (\<lambda>rule. occurs_ignoring_case tbl s (fst rule)) rules of
        Some rule \<Rightarrow> snd rule
      | None \<Rightarrow> dflt)"

text \<open>The identifier, a space and its final \<open>/\<close>-segment.\<close>

definition checked_name :: "string \<Rightarrow> string" where
  "checked_name ident = ident @ '' '' @ last (Split ident CHR ''/'')"

text \<open>What a written line says: its \<open>done\<close> flag and its text payload.\<close>

definition done_flag :: "json \<Rightarrow> json option" where
  "done_flag ev = field ''done'' ev"

definition chat_text :: "json \<Rightarrow> string option" where
  "chat_text ev =
     (case field ''message'' ev of
        Some m \<Rightarrow> (case field ''content'' m of Some (JString s) \<Rightarrow> Some s | _ \<Rightarrow> None)
      | None \<Rightarrow> None)"

definition generate_text :: "json \<Rightarrow> string option" where
  "generate_text ev = (case field ''response'' ev of Some (JString s) \<Rightarrow> Some s | _ \<Rightarrow> None)"

text \<open>What a backend chunk carries in its first choice, if it has one.\<close>

definition delta_text :: "ChatCompletionStreamResponse \<Rightarrow> string option" where
  "delta_text response =
     (case StreamChoices response of [] \<Rightarrow> None | c # _ \<Rightarrow> Some (Content (Delta c)))"

definition has_text_delta :: "ChatCompletionStreamResponse \<Rightarrow> bool" where
  "has_text_delta response \<longleftrightarrow>
     (case StreamChoices response of [] \<Rightarrow> False | c # _ \<Rightarrow> Content (Delta c) \<noteq> '''')"

definition first_finish :: "ChatCompletionStreamResponse \<Rightarrow> string" where
  "first_finish response =
     (case StreamChoices response of [] \<Rightarrow> '''' | c # _ \<Rightarrow> FinishReason c)"

text \<open>The last non-empty finish reason of the chunks, \<open>stop\<close> when there is none.\<close>

definition last_finish_reason :: "ChatCompletionStreamResponse list \<Rightarrow> string" where
  "last_finish_reason chunks =
     (case filter (\<lambda>r. r \<noteq> '''') (map first_finish chunks) of
        [] \<Rightarrow> ''stop''
      | r # rs \<Rightarrow> last (r # rs))"

text \<open>The usage counters of a final line.\<close>

definition usage_counters :: "json \<Rightarrow> json option list" where
  "usage_counters ev =
     map (\<lambda>k. field k ev)
       [''total_duration'', ''load_duration'', ''prompt_eval_count'', ''eval_count'',
        ''eval_duration'']"

subsection \<open>Sample inputs\<close>

text \<open>
  Two entries of the Unicode case table, U+0130 (capital I with dot above) to \<open>i\<close> and
  U+212A (Kelvin sign) to \<open>k\<close>; every other rune is left as it is.
\<close>

definition sample_lower :: "nat \<Rightarrow> nat" where
  "sample_lower r = (if r = 0x130 then 0x69 else if r = 0x212A then 0x6B else r)"

definition text_chunk :: "string \<Rightarrow> string \<Rightarrow> ChatCompletionStreamResponse" where
  "text_chunk content reason =
     \<lparr> StreamChoices = [\<lparr> Delta = \<lparr> Role = ''assistant'', Content = content \<rparr>,
                           FinishReason = reason \<rparr>] \<rparr>"

definition empty_chunk :: ChatCompletionStreamResponse where
  "empty_chunk = \<lparr> StreamChoices = [] \<rparr>"

text \<open>An upstream with two models that streams two deltas and then ends.\<close>

definition demo_env :: env where
  "demo_env =
     \<lparr> ListModels = Inr [\<lparr> ID = ''meta/llama-3-70b-instruct'' \<rparr>, \<lparr> ID = ''acme/nano-1b'' \<rparr>],
       CreateChatCompletion =
         (\<lambda>messages model.
            Inr \<lparr> Choices = [\<lparr> Message = \<lparr> Role = ''assistant'', Content = ''Hello'' \<rparr> \<rparr>] \<rparr>),
       CreateChatCompletionStream =
         (\<lambda>messages model.
            Inr [RecvOk (text_chunk ''Hel'' ''''), RecvOk (text_chunk ''lo'' ''length''), RecvEOF]),
       clock = (\<lambda>n. ''2025-01-01T00:00:00Z''),
       sha256_hex = (\<lambda>s. ''''),
       unicode_lower = sample_lower,
       is_flusher = True \<rparr>"

text \<open>An upstream that cannot be reached.\<close>

definition offline_env :: env where
  "offline_env =
     \<lparr> ListModels = Inl (Error ''offline''),
       CreateChatCompletion = (\<lambda>messages model. Inl (Error ''offline'')),
       CreateChatCompletionStream = (\<lambda>messages model. Inl (Error ''offline'')),
       clock = (\<lambda>n. ''2025-01-01T00:00:00Z''),
       sha256_hex = (\<lambda>s. ''''),
       unicode_lower = sample_lower,
       is_flusher = True \<rparr>"

section \<open>Lemmas about the Go strings\<close>

lemma HasSuffix_Nil: "HasSuffix s []"
  by (simp add: HasSuffix_def)

lemma HasSuffix_self: "HasSuffix s s"
  by (simp add: HasSuffix_def)

lemma HasSuffix_iff: "HasSuffix s suf \<longleftrightarrow> (\<exists>p. s = p @ suf)"
proof
  assume "HasSuffix s suf"
  then have "s = take (length s - length suf) s @ suf"
    by (metis HasSuffix_def append_take_drop_id)
  then show "\<exists>p. s = p @ suf" ..
next
  assume "\<exists>p. s = p @ suf"
  then show "HasSuffix s suf" by (auto simp: HasSuffix_def)
qed

lemma Split_nonempty: "Split s sep \<noteq> []"
  by (induction s) (auto split: list.splits)

lemma HasPrefix_Nil: "HasPrefix s []"
  by (simp add: HasPrefix_def)

lemma HasPrefix_Nil_Cons: "\<not> HasPrefix [] (p # ps)"
  by (simp add: HasPrefix_def)

lemma HasPrefix_Cons: "HasPrefix (x # xs) (p # ps) \<longleftrightarrow> x = p \<and> HasPrefix xs ps"
  by (auto simp: HasPrefix_def)

lemma Contains_Nil: "Contains s []"
  by (cases s) (simp_all add: HasPrefix_Nil)

subsection \<open>Lower-casing and occurrence up to case\<close>

lemma EncodeRune_low: "r \<le> 0x7F \<Longrightarrow> EncodeRune r = [char_of r]"
  by (simp add: EncodeRune_def)

lemma high_byte: "0x80 \<le> n \<Longrightarrow> n < 256 \<Longrightarrow> 0x80 \<le> (of_char (char_of (n::nat)) :: nat)"
  by (simp add: of_char_of)

text \<open>A rune beyond ASCII is encoded by bytes beyond ASCII only.\<close>

lemma EncodeRune_high:
  assumes "0x80 \<le> r"
  shows "\<exists>b bs. EncodeRune r = b # bs \<and> (\<forall>x\<in>set (b # bs). 0x80 \<le> (of_char x :: nat))"
proof -
  have c: "0x80 \<le> (of_char (char_of (0x80 + m mod 64 :: nat)) :: nat)" for m :: nat
    by (rule high_byte) simp_all
  consider (two) "r \<le> 0x7FF"
    | (bad) "0x7FF < r" "0x10FFFF < r \<or> (0xD800 \<le> r \<and> r \<le> 0xDFFF)"
    | (three) "0x7FF < r" "\<not> (0x10FFFF < r \<or> (0xD800 \<le> r \<and> r \<le> 0xDFFF))" "r \<le> 0xFFFF"
    | (four) "0xFFFF < r" "r \<le> 0x10FFFF"
    by linarith
  then show ?thesis
  proof cases
    case two
    have "r div 64 < 32" using two by simp
    then have "0x80 \<le> (of_char (char_of (0xC0 + r div 64)) :: nat)"
      by (intro high_byte) simp_all
    then show ?thesis using assms two c by (simp add: EncodeRune_def)
  next
    case bad
    then show ?thesis using assms by (simp add: EncodeRune_def)
  next
    case three
    have "r div 4096 < 16" using three by simp
    then have "0x80 \<le> (of_char (char_of (0xE0 + r div 4096)) :: nat)"
      by (intro high_byte) simp_all
    then show ?thesis using assms three c by (simp add: EncodeRune_def)
  next
    case four
    have "r div 262144 < 5" using four by simp
    then have "0x80 \<le> (of_char (char_of (0xF0 + r div 262144)) :: nat)"
      by (intro high_byte) simp_all
    then show ?thesis using assms four c by (auto simp add: EncodeRune_def)
  qed
qed

lemma DecodeRune_ascii:
  "(of_char c :: nat) < 0x80 \<Longrightarrow> DecodeRuneInString (c # s) = (of_char c, 1)"
  by (simp add: DecodeRuneInString_def)

lemma runes_ascii:
  "list_all (\<lambda>c. (of_char c :: nat) < 0x80) s \<Longrightarrow> runes s = map of_char s"
  by (induction s) (simp_all add: DecodeRune_ascii)

lemma lower_byte_encode:
  assumes "(of_char c :: nat) < 0x80"
  shows "EncodeRune (unicode_ToLower tbl (of_char c)) = [lower_byte c]"
proof -
  have "unicode_ToLower tbl (of_char c) \<le> 0x7F"
    using assms by (simp add: unicode_ToLower_def)
  then show ?thesis
    using assms
    by (simp add: EncodeRune_low) (simp add: unicode_ToLower_def lower_byte_def Let_def)
qed

text \<open>On either path \<open>ToLower\<close> lowers the string rune by rune.\<close>

lemma ToLower_runes:
  "ToLower tbl s = concat (map (\<lambda>r. EncodeRune (unicode_ToLower tbl r)) (runes s))"
proof (cases "list_all (\<lambda>c. (of_char c :: nat) < 0x80) s")
  case True
  have "map lower_byte s = concat (map (\<lambda>c. EncodeRune (unicode_ToLower tbl (of_char c))) s)"
    using True by (induction s) (simp_all add: lower_byte_encode)
  then show ?thesis using True by (simp add: ToLower_def runes_ascii comp_def)
next
  case False
  then show ?thesis by (simp add: ToLower_def strings_Map_def)
qed

lemma lower_same:
  assumes "(of_char p :: nat) < 0x80"
    and "\<not> (65 \<le> (of_char p :: nat) \<and> (of_char p :: nat) \<le> 90)"
  shows "unicode_ToLower tbl r = of_char p \<longleftrightarrow> same_ignoring_case tbl r p"
  using assms unfolding unicode_ToLower_def same_ignoring_case_def by auto

lemma low_rune_byte:
  assumes "unicode_ToLower tbl r \<le> 0x7F" and "(of_char p :: nat) < 0x80"
  shows "char_of (unicode_ToLower tbl r) = p \<longleftrightarrow> unicode_ToLower tbl r = of_char p"
proof
  assume "char_of (unicode_ToLower tbl r) = p"
  then have "(of_char p :: nat) = unicode_ToLower tbl r mod 256" by (auto simp: of_char_of)
  then show "unicode_ToLower tbl r = of_char p" using assms by simp
next
  assume "unicode_ToLower tbl r = of_char p"
  then show "char_of (unicode_ToLower tbl r) = p" by simp
qed

lemma prefix_matches:
  assumes "plain_pattern pat"
  shows "HasPrefix (concat (map (\<lambda>r. EncodeRune (unicode_ToLower tbl r)) rs)) pat \<longleftrightarrow>
         matches_at (same_ignoring_case tbl) rs pat"
  using assms
proof (induction rs arbitrary: pat)
  case Nil
  then show ?case by (cases pat) (simp_all add: HasPrefix_Nil HasPrefix_Nil_Cons)
next
  case (Cons r rs)
  show ?case
  proof (cases pat)
    case Nil
    then show ?thesis by (simp add: HasPrefix_Nil)
  next
    case pat: (Cons p ps)
    from Cons.prems pat have p: "(of_char p :: nat) < 0x80"
      "\<not> (65 \<le> (of_char p :: nat) \<and> (of_char p :: nat) \<le> 90)" and ps: "plain_pattern ps"
      by (simp_all add: plain_pattern_def)
    show ?thesis
    proof (cases "unicode_ToLower tbl r \<le> 0x7F")
      case True
      then show ?thesis
        using Cons.IH[OF ps] p pat
        by (simp add: EncodeRune_low HasPrefix_Cons low_rune_byte lower_same)
    next
      case False
      then have "0x80 \<le> unicode_ToLower tbl r" by simp
      from EncodeRune_high[OF this] obtain b bs where
        e: "EncodeRune (unicode_ToLower tbl r) = b # bs" and b: "0x80 \<le> (of_char b :: nat)"
        by auto
      have "b \<noteq> p" using b p by auto
      moreover have "\<not> same_ignoring_case tbl r p"
        using False p lower_same[OF p, of tbl r] by auto
      ultimately show ?thesis using pat by (simp add: e HasPrefix_Cons)
    qed
  qed
qed

lemma Contains_skip_high:
  assumes "\<forall>x\<in>set xs. 0x80 \<le> (of_char x :: nat)" and "(of_char p :: nat) < 0x80"
  shows "Contains (xs @ ys) (p # ps) = Contains ys (p # ps)"
  using assms by (induction xs) (auto simp: HasPrefix_Cons)

lemma contains_occurs:
  assumes "plain_pattern pat"
  shows "Contains (concat (map (\<lambda>r. EncodeRune (unicode_ToLower tbl r)) rs)) pat \<longleftrightarrow>
         occurs (same_ignoring_case tbl) rs pat"
proof (induction rs)
  case Nil
  show ?case by (cases pat) simp_all
next
  case (Cons r rs)
  show ?case
  proof (cases pat)
    case Nil
    then show ?thesis by (simp add: Contains_Nil)
  next
    case (Cons p ps)
    with assms have p: "(of_char p :: nat) < 0x80"
      "\<not> (65 \<le> (of_char p :: nat) \<and> (of_char p :: nat) \<le> 90)"
      by (simp_all add: plain_pattern_def)
    show ?thesis
    proof (cases "unicode_ToLower tbl r \<le> 0x7F")
      case True
      have "Contains (concat (map (\<lambda>r. EncodeRune (unicode_ToLower tbl r)) (r # rs))) pat \<longleftrightarrow>
            HasPrefix (concat (map (\<lambda>r. EncodeRune (unicode_ToLower tbl r)) (r # rs))) pat \<or>
            Contains (concat (map (\<lambda>r. EncodeRune (unicode_ToLower tbl r)) rs)) pat"
        using True by (simp add: EncodeRune_low)
      then show ?thesis
        using Cons.IH prefix_matches[OF assms, of tbl "r # rs"] by simp
    next
      case False
      then have "0x80 \<le> unicode_ToLower tbl r" by simp
      from EncodeRune_high[OF this] obtain b bs where
        e: "EncodeRune (unicode_ToLower tbl r) = b # bs"
        and b: "\<forall>x\<in>set (b # bs). 0x80 \<le> (of_char x :: nat)"
        by auto
      have "Contains (concat (map (\<lambda>r. EncodeRune (unicode_ToLower tbl r)) (r # rs))) pat \<longleftrightarrow>
            Contains (concat (map (\<lambda>r. EncodeRune (unicode_ToLower tbl r)) rs)) pat"
        using Contains_skip_high[OF b p(1)] \<open>pat = p # ps\<close> by (simp add: e)
      moreover have "\<not> matches_at (same_ignoring_case tbl) (r # rs) pat"
        using False p lower_same[OF p, of tbl r] \<open>pat = p # ps\<close> by auto
      ultimately show ?thesis using Cons.IH by simp
    qed
  qed
qed

text \<open>
  Testing the lower-cased string for a plain pattern is testing the string for the
  pattern up to letter case.
\<close>

lemma Contains_ToLower:
  "plain_pattern pat \<Longrightarrow>
   Contains (ToLower tbl s) pat \<longleftrightarrow> occurs_ignoring_case tbl s pat"
  by (simp add: ToLower_runes contains_occurs occurs_ignoring_case_def)

section \<open>The catalog resolver\<close>

lemma exact_match_eq:
  "exact_match names alias = (if alias \<in> set names then Some alias else None)"
  by (induction names) auto

lemma suffix_match_find: "suffix_match names alias = find (\<lambda>n. HasSuffix n alias) names"
  by (induction names) auto

lemma GetModels_loop_eq:
  "GetModels_loop e t ms prov acc =
     (acc @ map (build_model e t) ms, prov\<lparr>modelNames := modelNames prov @ map ID ms\<rparr>)"
  by (induction ms arbitrary: prov acc) auto

text \<open>
  A successful fetch leaves exactly the fetched identifiers in the snapshot, in the
  order of the answer; a failed one leaves the snapshot as it was.
\<close>

lemma GetModels_ok:
  "ListModels e = Inr ms \<Longrightarrow>
   GetModels e prov =
     (Inr (map (build_model e (clock e 0)) ms),
      prov\<lparr>client := client prov @ [CallListModels], modelNames := map ID ms\<rparr>)"
  by (simp add: GetModels_def GetModels_loop_eq)

lemma GetModels_fail:
  "ListModels e = Inl err \<Longrightarrow>
   GetModels e prov = (Inl err, prov\<lparr>client := client prov @ [CallListModels]\<rparr>)"
  by (simp add: GetModels_def)

lemma GetFullModelName_consulted:
  assumes "consulted_snapshot e prov = Some names"
  shows "fst (GetFullModelName e prov alias) =
           Inr (if alias \<in> set names then alias
                else (case find (\<lambda>n. HasSuffix n alias) names of
                        Some n \<Rightarrow> n | None \<Rightarrow> alias))"
proof (cases "modelNames prov = []")
  case True
  with assms obtain ms where ms: "ListModels e = Inr ms" "names = map ID ms"
    by (auto simp: consulted_snapshot_def split: sum.splits)
  show ?thesis using True ms
    by (simp add: GetFullModelName_def GetModels_ok exact_match_eq suffix_match_find
        split: option.splits)
next
  case False
  with assms have "names = modelNames prov" by (simp add: consulted_snapshot_def)
  then show ?thesis using False
    by (simp add: GetFullModelName_def exact_match_eq suffix_match_find split: option.splits)
qed

lemma GetFullModelName_snapshot:
  assumes "consulted_snapshot e prov = Some names"
  shows "modelNames (snd (GetFullModelName e prov alias)) = names"
proof (cases "modelNames prov = []")
  case True
  with assms obtain ms where ms: "ListModels e = Inr ms" "names = map ID ms"
    by (auto simp: consulted_snapshot_def split: sum.splits)
  show ?thesis using True ms
    by (simp add: GetFullModelName_def GetModels_ok split: option.splits)
next
  case False
  with assms have "names = modelNames prov" by (simp add: consulted_snapshot_def)
  then show ?thesis using False
    by (simp add: GetFullModelName_def split: option.splits)
qed

lemma GetFullModelName_fetch_failed:
  assumes "modelNames prov = []" and "ListModels e = Inl err"
  shows "fst (GetFullModelName e prov alias) =
           Inl (Error (''failed to get models: '' @ message err))"
  using assms by (simp add: GetFullModelName_def GetModels_fail)

lemma find_first_split:
  assumes "\<exists>x\<in>set xs. P x"
  shows "\<exists>pre x post. xs = pre @ x # post \<and> (\<forall>y\<in>set pre. \<not> P y) \<and> P x \<and>
                       find P xs = Some x"
proof -
  from split_list_first_prop[OF assms]
  obtain pre x post where d: "xs = pre @ x # post" "P x" "\<forall>y\<in>set pre. \<not> P y"
    by blast
  have "find P (pre @ x # post) = Some x"
    using d(2,3) by (induction pre) auto
  with d show ?thesis by blast
qed

lemma after_separator_suffix: "after_separator alias fullName \<Longrightarrow> HasSuffix fullName alias"
  by (simp add: after_separator_def)

text \<open>
  C4, as stated: when the alias is not an entry of the snapshot and follows the namespace
  separator of some entry, \<open>GetFullModelName\<close> returns the first entry of the snapshot
  of which the alias is such a suffix. This fails: the suffix loop tests
  \<open>strings.HasSuffix\<close> alone, so with the snapshot \<open>xllama\<close>, \<open>meta/llama\<close> the alias
  \<open>llama\<close> resolves to \<open>xllama\<close>, which has no separator, and not to \<open>meta/llama\<close>.
\<close>

theorem GetFullModelName_ignores_separator:
  "''llama'' \<notin> set [''xllama'', ''meta/llama''] \<and>
   find (after_separator ''llama'') [''xllama'', ''meta/llama''] = Some ''meta/llama'' \<and>
   fst (GetFullModelName offline_env
          \<lparr> client = [], modelNames = [''xllama'', ''meta/llama''] \<rparr> ''llama'') = Inr ''xllama''"
  by (simp add: GetFullModelName_def HasSuffix_def after_separator_def)

text \<open>
  C4, amended: when the alias is not an entry of the snapshot and follows the namespace
  separator of some entry, \<open>GetFullModelName\<close> returns the first entry of the snapshot,
  in snapshot order, that ends with the alias, whether or not a separator stands in
  front of the alias in that entry.
\<close>

theorem GetFullModelName_first_suffix:
  assumes "consulted_snapshot e prov = Some names"
    and "alias \<notin> set names"
    and "\<exists>n\<in>set names. after_separator alias n"
  shows "\<exists>pre fullName post.
           names = pre @ fullName # post \<and>
           (\<forall>n\<in>set pre. \<not> HasSuffix n alias) \<and>
           HasSuffix fullName alias \<and>
           fst (GetFullModelName e prov alias) = Inr fullName"
proof -
  from assms(3) have "\<exists>n\<in>set names. HasSuffix n alias"
    by (auto dest: after_separator_suffix)
  from find_first_split[OF this]
  obtain pre fullName post where d:
    "names = pre @ fullName # post" "\<forall>n\<in>set pre. \<not> HasSuffix n alias"
    "HasSuffix fullName alias" "find (\<lambda>n. HasSuffix n alias) names = Some fullName"
    by blast
  have "fst (GetFullModelName e prov alias) = Inr fullName"
    using assms(2) d(4) by (simp add: GetFullModelName_consulted[OF assms(1)])
  with d show ?thesis by blast
qed

theorem GetFullModelName_first_suffix_witness:
  "consulted_snapshot offline_env \<lparr> client = [], modelNames = [''xllama'', ''meta/llama''] \<rparr>
     = Some [''xllama'', ''meta/llama''] \<and>
   ''llama'' \<notin> set [''xllama'', ''meta/llama''] \<and>
   (\<exists>n\<in>set [''xllama'', ''meta/llama'']. after_separator ''llama'' n) \<and>
   (\<exists>pre fullName post.
      [''xllama'', ''meta/llama''] = pre @ fullName # post \<and>
      (\<forall>n\<in>set pre. \<not> HasSuffix n ''llama'') \<and>
      HasSuffix fullName ''llama'' \<and>
      fst (GetFullModelName offline_env
             \<lparr> client = [], modelNames = [''xllama'', ''meta/llama''] \<rparr> ''llama'') = Inr fullName)"
proof -
  have h1: "consulted_snapshot offline_env \<lparr> client = [], modelNames = [''xllama'', ''meta/llama''] \<rparr>
              = Some [''xllama'', ''meta/llama'']"
    by (simp add: consulted_snapshot_def)
  have h2: "''llama'' \<notin> set [''xllama'', ''meta/llama'']" by simp
  have h3: "\<exists>n\<in>set [''xllama'', ''meta/llama'']. after_separator ''llama'' n"
    by (simp add: after_separator_def HasSuffix_def)
  from GetFullModelName_first_suffix[OF h1 h2 h3] h1 h2 h3 show ?thesis by blast
qed

text \<open>
  C5: an alias that no entry of the snapshot equals or ends with is returned unchanged,
  and with a non-empty cached snapshot, or a successful fetch when the cache is empty,
  \<open>GetFullModelName\<close> returns no error, whatever the alias.
\<close>

theorem GetFullModelName_pass_through:
  assumes "consulted_snapshot e prov = Some names"
  shows "((\<forall>n\<in>set names. n \<noteq> alias \<and> \<not> HasSuffix n alias) \<longrightarrow>
            fst (GetFullModelName e prov alias) = Inr alias) \<and>
         (\<exists>r. fst (GetFullModelName e prov alias) = Inr r)"
proof -
  have "find (\<lambda>n. HasSuffix n alias) names = None"
    if "\<forall>n\<in>set names. n \<noteq> alias \<and> \<not> HasSuffix n alias"
    using that by (simp add: find_None_iff)
  then show ?thesis
    by (auto simp add: GetFullModelName_consulted[OF assms])
qed

theorem GetFullModelName_pass_through_witness:
  "consulted_snapshot demo_env \<lparr> client = [], modelNames = [] \<rparr>
     = Some [''meta/llama-3-70b-instruct'', ''acme/nano-1b''] \<and>
   ''meta/llama-3-70b-instruct'' \<noteq> ''openai/o9'' \<and>
   \<not> HasSuffix ''meta/llama-3-70b-instruct'' ''openai/o9'' \<and>
   ''acme/nano-1b'' \<noteq> ''openai/o9'' \<and>
   \<not> HasSuffix ''acme/nano-1b'' ''openai/o9'' \<and>
   fst (GetFullModelName demo_env \<lparr> client = [], modelNames = [] \<rparr> ''openai/o9'')
     = Inr ''openai/o9''"
proof -
  have h1: "consulted_snapshot demo_env \<lparr> client = [], modelNames = [] \<rparr>
              = Some [''meta/llama-3-70b-instruct'', ''acme/nano-1b'']"
    by (simp add: consulted_snapshot_def demo_env_def)
  have h2: "\<forall>n\<in>set [''meta/llama-3-70b-instruct'', ''acme/nano-1b''].
              n \<noteq> ''openai/o9'' \<and> \<not> HasSuffix n ''openai/o9''"
    by (simp add: HasSuffix_def)
  from GetFullModelName_pass_through[OF h1, of "''openai/o9''"] h2
  have "fst (GetFullModelName demo_env \<lparr> client = [], modelNames = [] \<rparr> ''openai/o9'')
          = Inr ''openai/o9''"
    by blast
  with h1 h2 show ?thesis by simp
qed

text \<open>
  C9, as stated: for every non-empty snapshot the empty alias resolves to the first
  identifier of the snapshot and not to the empty string. This fails when the empty
  string is itself an identifier of the snapshot: the exact-match loop then returns it
  before the suffix loop runs.
\<close>

theorem GetFullModelName_empty_alias_exact:
  "fst (GetFullModelName offline_env \<lparr> client = [], modelNames = [''a'', ''''] \<rparr> '''') = Inr '''' \<and>
   hd [''a'', ''''] = ''a''"
  by (simp add: GetFullModelName_def)

text \<open>
  C9, amended: for every non-empty snapshot that does not hold the empty string as an
  identifier, the empty alias resolves to the first identifier of the snapshot, because
  every string ends with the empty suffix.
\<close>

theorem GetFullModelName_empty_alias:
  assumes "consulted_snapshot e prov = Some names"
    and "names \<noteq> []"
    and "'''' \<notin> set names"
  shows "fst (GetFullModelName e prov '''') = Inr (hd names) \<and> hd names \<noteq> ''''"
proof -
  from assms(2) obtain n ns where "names = n # ns" by (cases names) auto
  then show ?thesis using assms(3)
    by (auto simp add: GetFullModelName_consulted[OF assms(1)] HasSuffix_Nil)
qed

theorem GetFullModelName_empty_alias_witness:
  "consulted_snapshot offline_env
     \<lparr> client = [], modelNames = [''meta/llama-3-70b-instruct'', ''acme/nano-1b''] \<rparr>
     = Some [''meta/llama-3-70b-instruct'', ''acme/nano-1b''] \<and>
   [''meta/llama-3-70b-instruct'', ''acme/nano-1b''] \<noteq> [] \<and>
   '''' \<notin> set [''meta/llama-3-70b-instruct'', ''acme/nano-1b''] \<and>
   fst (GetFullModelName offline_env
          \<lparr> client = [], modelNames = [''meta/llama-3-70b-instruct'', ''acme/nano-1b''] \<rparr> '''')
     = Inr ''meta/llama-3-70b-instruct''"
proof -
  have h1: "consulted_snapshot offline_env
              \<lparr> client = [], modelNames = [''meta/llama-3-70b-instruct'', ''acme/nano-1b''] \<rparr>
              = Some [''meta/llama-3-70b-instruct'', ''acme/nano-1b'']"
    by (simp add: consulted_snapshot_def)
  have h2: "[''meta/llama-3-70b-instruct'', ''acme/nano-1b''] \<noteq> []" by simp
  have h3: "'''' \<notin> set [''meta/llama-3-70b-instruct'', ''acme/nano-1b'']" by simp
  from GetFullModelName_empty_alias[OF h1 h2 h3] h1 h2 h3 show ?thesis by simp
qed

section \<open>The metadata synthesizer\<close>

lemma plain_patterns:
  "plain_pattern ''70b''" "plain_pattern ''13b''" "plain_pattern ''3b''" "plain_pattern ''1b''"
  "plain_pattern ''llama''" "plain_pattern ''mistral''" "plain_pattern ''gemma''"
  "plain_pattern ''claude''" "plain_pattern ''gpt''"
  by code_simp+

lemma parameterSize_of_rules:
  "parameterSize_of (ToLower tbl s) = first_label tbl size_rules ''7B'' s"
  by (simp add: parameterSize_of_def first_label_def size_rules_def Contains_ToLower
      plain_patterns)

lemma family_of_rules:
  "family_of (ToLower tbl s) = first_label tbl family_rules ''transformer'' s"
  by (simp add: family_of_def first_label_def family_rules_def Contains_ToLower
      plain_patterns)

lemma build_model_details:
  "ParameterSize (Details (build_model e t a)) =
     first_label (unicode_lower e) size_rules ''7B'' (checked_name (ID a))"
  "Family (Details (build_model e t a)) =
     first_label (unicode_lower e) family_rules ''transformer'' (checked_name (ID a))"
  by (simp_all add: build_model_def Let_def parameterSize_of_rules family_of_rules
      checked_name_def)

lemma checked_name_llama:
  "ToLower tbl (checked_name ''meta/llama-3-70b-instruct'') =
     ''meta/llama-3-70b-instruct llama-3-70b-instruct''"
  by code_simp

lemma checked_name_nano:
  "ToLower tbl (checked_name ''acme/nano-1b'') = ''acme/nano-1b nano-1b''"
  by code_simp

lemma labels_llama:
  "family_of ''meta/llama-3-70b-instruct llama-3-70b-instruct'' = ''llama''"
  "parameterSize_of ''meta/llama-3-70b-instruct llama-3-70b-instruct'' = ''70B''"
  by code_simp+

lemma labels_nano:
  "family_of ''acme/nano-1b nano-1b'' = ''transformer''"
  "parameterSize_of ''acme/nano-1b nano-1b'' = ''1B''"
  by code_simp+

lemma build_model_examples:
  "Family (Details (build_model e t \<lparr> ID = ''meta/llama-3-70b-instruct'' \<rparr>)) = ''llama''"
  "ParameterSize (Details (build_model e t \<lparr> ID = ''meta/llama-3-70b-instruct'' \<rparr>)) = ''70B''"
  "Family (Details (build_model e t \<lparr> ID = ''acme/nano-1b'' \<rparr>)) = ''transformer''"
  "ParameterSize (Details (build_model e t \<lparr> ID = ''acme/nano-1b'' \<rparr>)) = ''1B''"
  using checked_name_llama[of "unicode_lower e"] checked_name_nano[of "unicode_lower e"]
  by (simp_all add: build_model_def Let_def checked_name_def labels_llama labels_nano)

text \<open>
  Capitals are matched as well: ASCII capitals by arithmetic, and with the entry of the
  Unicode table for U+0130 the identifier written with a dotted capital I (bytes C4 B0)
  is of family mistral.
\<close>

lemma build_model_upper_case:
  "Details (build_model demo_env ''t'' \<lparr> ID = ''Meta/LLaMA-3-70B-Instruct'' \<rparr>) =
     Details (build_model demo_env ''t'' \<lparr> ID = ''meta/llama-3-70b-instruct'' \<rparr>)"
  by code_simp

lemma build_model_dotted_capital:
  "Family (Details (build_model demo_env ''t''
     \<lparr> ID = ''acme/M'' @ [CHR 0xC4, CHR 0xB0] @ ''STRAL-large'' \<rparr>)) = ''mistral''"
  by code_simp

text \<open>
  C7: for every identifier of a fetched catalog, the parameter size and the family of the
  model that \<open>GetModels\<close> builds are the label of the first rule, in the order 70b, 13b,
  3b, 1b (else 7B) and llama, mistral, gemma, claude, gpt (else transformer), whose
  pattern occurs, up to letter case, in the identifier followed by its final
  \<open>/\<close>-segment; the catalog \<open>meta/llama-3-70b-instruct\<close>, \<open>acme/nano-1b\<close> gives llama with
  70B and transformer with 1B.
\<close>

theorem GetModels_label_cascade:
  "(ListModels e = Inr apiModels \<longrightarrow>
      (\<exists>models. fst (GetModels e prov) = Inr models \<and>
         map (\<lambda>m. ParameterSize (Details m)) models =
           map (\<lambda>a. first_label (unicode_lower e) size_rules ''7B'' (checked_name (ID a)))
             apiModels \<and>
         map (\<lambda>m. Family (Details m)) models =
           map (\<lambda>a. first_label (unicode_lower e) family_rules ''transformer''
                      (checked_name (ID a)))
             apiModels)) \<and>
   (ListModels e = Inr [\<lparr> ID = ''meta/llama-3-70b-instruct'' \<rparr>, \<lparr> ID = ''acme/nano-1b'' \<rparr>] \<longrightarrow>
      (\<exists>models. fst (GetModels e prov) = Inr models \<and>
         map (\<lambda>m. (Family (Details m), ParameterSize (Details m))) models =
           [(''llama'', ''70B''), (''transformer'', ''1B'')]))"
proof (intro conjI impI)
  assume "ListModels e = Inr apiModels"
  then show "\<exists>models. fst (GetModels e prov) = Inr models \<and>
         map (\<lambda>m. ParameterSize (Details m)) models =
           map (\<lambda>a. first_label (unicode_lower e) size_rules ''7B'' (checked_name (ID a)))
             apiModels \<and>
         map (\<lambda>m. Family (Details m)) models =
           map (\<lambda>a. first_label (unicode_lower e) family_rules ''transformer''
                      (checked_name (ID a)))
             apiModels"
    by (simp add: GetModels_ok build_model_details comp_def)
next
  assume "ListModels e =
            Inr [\<lparr> ID = ''meta/llama-3-70b-instruct'' \<rparr>, \<lparr> ID = ''acme/nano-1b'' \<rparr>]"
  then show "\<exists>models. fst (GetModels e prov) = Inr models \<and>
         map (\<lambda>m. (Family (Details m), ParameterSize (Details m))) models =
           [(''llama'', ''70B''), (''transformer'', ''1B'')]"
    by (simp add: GetModels_ok build_model_examples)
qed

theorem GetModels_label_cascade_witness:
  "ListModels demo_env = Inr [\<lparr> ID = ''meta/llama-3-70b-instruct'' \<rparr>, \<lparr> ID = ''acme/nano-1b'' \<rparr>] \<and>
   (\<exists>models. fst (GetModels demo_env \<lparr> client = [], modelNames = [] \<rparr>) = Inr models \<and>
      map (\<lambda>m. ParameterSize (Details m)) models =
        map (\<lambda>a. first_label (unicode_lower demo_env) size_rules ''7B'' (checked_name (ID a)))
          [\<lparr> ID = ''meta/llama-3-70b-instruct'' \<rparr>, \<lparr> ID = ''acme/nano-1b'' \<rparr>] \<and>
      map (\<lambda>m. Family (Details m)) models =
        map (\<lambda>a. first_label (unicode_lower demo_env) family_rules ''transformer''
                   (checked_name (ID a)))
          [\<lparr> ID = ''meta/llama-3-70b-instruct'' \<rparr>, \<lparr> ID = ''acme/nano-1b'' \<rparr>]) \<and>
   (\<exists>models. fst (GetModels demo_env \<lparr> client = [], modelNames = [] \<rparr>) = Inr models \<and>
      map (\<lambda>m. (Family (Details m), ParameterSize (Details m))) models =
        [(''llama'', ''70B''), (''transformer'', ''1B'')])"
proof -
  have h: "ListModels demo_env =
             Inr [\<lparr> ID = ''meta/llama-3-70b-instruct'' \<rparr>, \<lparr> ID = ''acme/nano-1b'' \<rparr>]"
    by (simp add: demo_env_def)
  from GetModels_label_cascade[of demo_env
         "[\<lparr> ID = ''meta/llama-3-70b-instruct'' \<rparr>, \<lparr> ID = ''acme/nano-1b'' \<rparr>]"
         "\<lparr> client = [], modelNames = [] \<rparr>"] h
  show ?thesis by blast
qed

section \<open>The stream reframer: written lines\<close>

lemma done_flag_chat_chunk: "done_flag (chat_chunk_event m t s) = Some (JBool False)"
  by (simp add: done_flag_def field_def chat_chunk_event_def)

lemma chat_text_chat_chunk: "chat_text (chat_chunk_event m t s) = Some s"
  by (simp add: chat_text_def field_def chat_chunk_event_def)

lemma done_flag_generate_chunk: "done_flag (generate_chunk_event m t s) = Some (JBool False)"
  by (simp add: done_flag_def field_def generate_chunk_event_def)

lemma generate_text_generate_chunk: "generate_text (generate_chunk_event m t s) = Some s"
  by (simp add: generate_text_def field_def generate_chunk_event_def)

lemma done_flag_chat_final: "done_flag (chat_final_event m t r) = Some (JBool True)"
  by (simp add: done_flag_def field_def chat_final_event_def)

lemma done_flag_generate_final: "done_flag (generate_final_event m t) = Some (JBool True)"
  by (simp add: done_flag_def field_def generate_final_event_def)

lemma done_flag_error: "done_flag (error_event err) = None"
  by (simp add: done_flag_def field_def error_event_def)

lemma no_done_true:
  assumes "map done_flag xs = replicate n (Some (JBool False))"
  shows "Some (JBool True) \<notin> done_flag ` set xs"
proof -
  have "done_flag ` set xs = set (replicate n (Some (JBool False)))"
    using assms by (metis set_map)
  then show ?thesis by auto
qed

text \<open>
  Chunks that all have a choice take the loop through one round each: every round
  appends one line with \<open>done = false\<close> that carries the delta of the chunk.
\<close>

lemma chat_loop_chunks:
  assumes "\<forall>c\<in>set chunks. StreamChoices c \<noteq> []"
  shows "\<exists>evs. chat_stream_loop now m (map RecvOk chunks @ rest) w lfr =
                 chat_stream_loop now m rest (w @ evs) (fold track_finish chunks lfr) \<and>
               map done_flag evs = replicate (length chunks) (Some (JBool False)) \<and>
               map chat_text evs = map delta_text chunks"
  using assms
proof (induction chunks arbitrary: w lfr)
  case Nil
  then show ?case by simp
next
  case (Cons c chunks)
  from Cons.prems obtain ch chs where ch: "StreamChoices c = ch # chs"
    by (cases "StreamChoices c") auto
  let ?ev = "chat_chunk_event m (now (length w)) (Content (Delta ch))"
  from Cons.IH[of "w @ [?ev]" "track_finish c lfr"] Cons.prems
  obtain evs where evs:
    "chat_stream_loop now m (map RecvOk chunks @ rest) (w @ [?ev]) (track_finish c lfr) =
       chat_stream_loop now m rest ((w @ [?ev]) @ evs)
         (fold track_finish chunks (track_finish c lfr))"
    "map done_flag evs = replicate (length chunks) (Some (JBool False))"
    "map chat_text evs = map delta_text chunks"
    by auto
  show ?case
  proof (intro exI conjI)
    show "chat_stream_loop now m (map RecvOk (c # chunks) @ rest) w lfr =
          chat_stream_loop now m rest (w @ ?ev # evs) (fold track_finish (c # chunks) lfr)"
      using evs(1) ch by (simp add: Let_def)
    show "map done_flag (?ev # evs) = replicate (length (c # chunks)) (Some (JBool False))"
      using evs(2) by (simp add: done_flag_chat_chunk)
    show "map chat_text (?ev # evs) = map delta_text (c # chunks)"
      using evs(3) ch by (simp add: chat_text_chat_chunk delta_text_def)
  qed
qed

lemma generate_loop_chunks:
  assumes "\<forall>c\<in>set chunks. StreamChoices c \<noteq> []"
  shows "\<exists>evs. generate_stream_loop now m (map RecvOk chunks @ rest) w lfr =
                 generate_stream_loop now m rest (w @ evs) (fold track_finish chunks lfr) \<and>
               map done_flag evs = replicate (length chunks) (Some (JBool False)) \<and>
               map generate_text evs = map delta_text chunks"
  using assms
proof (induction chunks arbitrary: w lfr)
  case Nil
  then show ?case by simp
next
  case (Cons c chunks)
  from Cons.prems obtain ch chs where ch: "StreamChoices c = ch # chs"
    by (cases "StreamChoices c") auto
  let ?ev = "generate_chunk_event m (now (length w)) (Content (Delta ch))"
  from Cons.IH[of "w @ [?ev]" "track_finish c lfr"] Cons.prems
  obtain evs where evs:
    "generate_stream_loop now m (map RecvOk chunks @ rest) (w @ [?ev]) (track_finish c lfr) =
       generate_stream_loop now m rest ((w @ [?ev]) @ evs)
         (fold track_finish chunks (track_finish c lfr))"
    "map done_flag evs = replicate (length chunks) (Some (JBool False))"
    "map generate_text evs = map delta_text chunks"
    by auto
  show ?case
  proof (intro exI conjI)
    show "generate_stream_loop now m (map RecvOk (c # chunks) @ rest) w lfr =
          generate_stream_loop now m rest (w @ ?ev # evs) (fold track_finish (c # chunks) lfr)"
      using evs(1) ch by (simp add: Let_def)
    show "map done_flag (?ev # evs) = replicate (length (c # chunks)) (Some (JBool False))"
      using evs(2) by (simp add: done_flag_generate_chunk)
    show "map generate_text (?ev # evs) = map delta_text (c # chunks)"
      using evs(3) ch by (simp add: generate_text_generate_chunk delta_text_def)
  qed
qed

text \<open>
  C1, as stated: a backend stream that delivers N events with non-empty text deltas and
  then \<open>io.EOF\<close> makes the handler write exactly N lines with \<open>done = false\<close>. This fails
  when the stream also delivers a chunk whose delta is empty, such as the closing chunk
  that only carries the finish reason: the loops do not look at the delta and write such
  a chunk as a line of its own. Here one chunk of two has a non-empty delta, and both
  handlers write two lines with \<open>done = false\<close> before the final line.
\<close>

theorem stream_writes_empty_delta:
  "length (filter has_text_delta [text_chunk ''Hi'' '''', text_chunk '''' ''stop'']) = 1 \<and>
   map done_flag
     (fst (chat_stream (clock demo_env) ''m''
             (map RecvOk [text_chunk ''Hi'' '''', text_chunk '''' ''stop''] @ [RecvEOF]))) =
     [Some (JBool False), Some (JBool False), Some (JBool True)] \<and>
   map done_flag
     (fst (generate_stream (clock demo_env) ''m''
             (map RecvOk [text_chunk ''Hi'' '''', text_chunk '''' ''stop''] @ [RecvEOF]))) =
     [Some (JBool False), Some (JBool False), Some (JBool True)]"
  by (simp add: chat_stream_def generate_stream_def text_chunk_def track_finish_def Let_def
      has_text_delta_def done_flag_chat_chunk done_flag_generate_chunk done_flag_chat_final
      done_flag_generate_final)

text \<open>
  C1, amended: when the backend delivers N chunks, each with at least one choice (the
  text delta of a chunk may be empty), and then \<open>io.EOF\<close>, both streaming handlers write
  exactly N lines with \<open>done = false\<close>, one per chunk delivered, carrying the deltas in
  the order received, then exactly one line with \<open>done = true\<close>, which is the last line,
  and end there.
\<close>

theorem stream_lines_then_terminal:
  assumes "\<forall>c\<in>set chunks. StreamChoices c \<noteq> []"
  shows "(\<exists>w. chat_stream now m (map RecvOk chunks @ RecvEOF # rest) = (w, DONE) \<and>
              map done_flag w =
                replicate (length chunks) (Some (JBool False)) @ [Some (JBool True)] \<and>
              map chat_text (butlast w) = map delta_text chunks) \<and>
         (\<exists>w. generate_stream now m (map RecvOk chunks @ RecvEOF # rest) = (w, DONE) \<and>
              map done_flag w =
                replicate (length chunks) (Some (JBool False)) @ [Some (JBool True)] \<and>
              map generate_text (butlast w) = map delta_text chunks)"
proof -
  from chat_loop_chunks[OF assms, of now m "RecvEOF # rest" "[]" "''''"]
  obtain evs where evs:
    "chat_stream_loop now m (map RecvOk chunks @ RecvEOF # rest) [] '''' =
       chat_stream_loop now m (RecvEOF # rest) ([] @ evs) (fold track_finish chunks '''')"
    "map done_flag evs = replicate (length chunks) (Some (JBool False))"
    "map chat_text evs = map delta_text chunks"
    by blast
  from generate_loop_chunks[OF assms, of now m "RecvEOF # rest" "[]" "''''"]
  obtain gvs where gvs:
    "generate_stream_loop now m (map RecvOk chunks @ RecvEOF # rest) [] '''' =
       generate_stream_loop now m (RecvEOF # rest) ([] @ gvs) (fold track_finish chunks '''')"
    "map done_flag gvs = replicate (length chunks) (Some (JBool False))"
    "map generate_text gvs = map delta_text chunks"
    by blast
  have "chat_stream now m (map RecvOk chunks @ RecvEOF # rest) =
          (evs @ [chat_final_event m (now (length evs))
                    (if fold track_finish chunks '''' = '''' then ''stop''
                     else fold track_finish chunks '''')], DONE)"
    using evs(1) by (simp add: chat_stream_def)
  moreover have "generate_stream now m (map RecvOk chunks @ RecvEOF # rest) =
          (gvs @ [generate_final_event m (now (length gvs))], DONE)"
    using gvs(1) by (simp add: generate_stream_def)
  ultimately show ?thesis
    using evs(2,3) gvs(2,3) by (simp add: done_flag_chat_final done_flag_generate_final)
qed

theorem stream_lines_then_terminal_witness:
  "StreamChoices (text_chunk ''Hi'' '''') \<noteq> [] \<and>
   StreamChoices (text_chunk '''' ''stop'') \<noteq> [] \<and>
   (\<exists>w. chat_stream (clock demo_env) ''m''
           (map RecvOk [text_chunk ''Hi'' '''', text_chunk '''' ''stop''] @ RecvEOF # []) = (w, DONE) \<and>
        map done_flag w = [Some (JBool False), Some (JBool False), Some (JBool True)] \<and>
        map chat_text (butlast w) = [Some ''Hi'', Some '''']) \<and>
   (\<exists>w. generate_stream (clock demo_env) ''m''
           (map RecvOk [text_chunk ''Hi'' '''', text_chunk '''' ''stop''] @ RecvEOF # []) = (w, DONE) \<and>
        map done_flag w = [Some (JBool False), Some (JBool False), Some (JBool True)] \<and>
        map generate_text (butlast w) = [Some ''Hi'', Some ''''])"
proof -
  have h: "\<forall>c\<in>set [text_chunk ''Hi'' '''', text_chunk '''' ''stop'']. StreamChoices c \<noteq> []"
    by (simp add: text_chunk_def)
  have h': "StreamChoices (text_chunk ''Hi'' '''') \<noteq> [] \<and>
            StreamChoices (text_chunk '''' ''stop'') \<noteq> []"
    using h by simp
  have d: "map delta_text [text_chunk ''Hi'' '''', text_chunk '''' ''stop''] =
             [Some ''Hi'', Some '''']"
    by (simp add: delta_text_def text_chunk_def)
  have r: "replicate (length [text_chunk ''Hi'' '''', text_chunk '''' ''stop''])
             (Some (JBool False)) @ [Some (JBool True)] =
           [Some (JBool False), Some (JBool False), Some (JBool True)]"
    by (simp add: numeral_2_eq_2)
  from stream_lines_then_terminal[OF h, of "clock demo_env" "''m''" "[]"] h'
  show ?thesis unfolding d r by blast
qed

text \<open>
  C2: when the backend delivers chunks that all have a choice and then an error other
  than \<open>io.EOF\<close>, both streaming handlers write one line with \<open>done = false\<close> per
  chunk and then the line \<open>{"error": "Stream error: ..."}\<close>, and return; no line with
  \<open>done = true\<close> is written.
\<close>

theorem stream_error_aborts:
  assumes "\<forall>c\<in>set chunks. StreamChoices c \<noteq> []"
  shows "(\<exists>evs. chat_stream now m (map RecvOk chunks @ RecvErr err # rest) =
                  (evs @ [error_event err], ABORTED) \<and>
               map done_flag evs = replicate (length chunks) (Some (JBool False)) \<and>
               map chat_text evs = map delta_text chunks) \<and>
         (\<exists>evs. generate_stream now m (map RecvOk chunks @ RecvErr err # rest) =
                  (evs @ [error_event err], ABORTED) \<and>
               map done_flag evs = replicate (length chunks) (Some (JBool False)) \<and>
               map generate_text evs = map delta_text chunks) \<and>
         field ''error'' (error_event err) = Some (JString (''Stream error: '' @ message err)) \<and>
         done_flag (error_event err) = None \<and>
         Some (JBool True) \<notin>
           done_flag ` set (fst (chat_stream now m (map RecvOk chunks @ RecvErr err # rest))) \<and>
         Some (JBool True) \<notin>
           done_flag ` set (fst (generate_stream now m (map RecvOk chunks @ RecvErr err # rest)))"
proof -
  from chat_loop_chunks[OF assms, of now m "RecvErr err # rest" "[]" "''''"]
  obtain evs where evs:
    "chat_stream_loop now m (map RecvOk chunks @ RecvErr err # rest) [] '''' =
       chat_stream_loop now m (RecvErr err # rest) ([] @ evs) (fold track_finish chunks '''')"
    "map done_flag evs = replicate (length chunks) (Some (JBool False))"
    "map chat_text evs = map delta_text chunks"
    by blast
  from generate_loop_chunks[OF assms, of now m "RecvErr err # rest" "[]" "''''"]
  obtain gvs where gvs:
    "generate_stream_loop now m (map RecvOk chunks @ RecvErr err # rest) [] '''' =
       generate_stream_loop now m (RecvErr err # rest) ([] @ gvs) (fold track_finish chunks '''')"
    "map done_flag gvs = replicate (length chunks) (Some (JBool False))"
    "map generate_text gvs = map delta_text chunks"
    by blast
  have c: "chat_stream now m (map RecvOk chunks @ RecvErr err # rest) =
             (evs @ [error_event err], ABORTED)"
    using evs(1) by (simp add: chat_stream_def)
  have g: "generate_stream now m (map RecvOk chunks @ RecvErr err # rest) =
             (gvs @ [error_event err], ABORTED)"
    using gvs(1) by (simp add: generate_stream_def)
  show ?thesis
    using c g evs(2,3) gvs(2,3) no_done_true[OF evs(2)] no_done_true[OF gvs(2)]
    by (simp add: done_flag_error) (simp add: error_event_def field_def)
qed

theorem stream_error_aborts_witness:
  "StreamChoices (text_chunk ''a'' '''') \<noteq> [] \<and>
   StreamChoices (text_chunk ''b'' '''') \<noteq> [] \<and>
   (\<exists>evs. chat_stream (\<lambda>n. ''t'') ''m''
             (map RecvOk [text_chunk ''a'' '''', text_chunk ''b'' ''''] @
              RecvErr (Error ''reset'') #
              [RecvOk (text_chunk ''c'' ''''), RecvOk (text_chunk ''d'' ''''),
               RecvOk (text_chunk ''e'' ''stop''), RecvEOF]) =
             (evs @ [error_event (Error ''reset'')], ABORTED) \<and>
           map done_flag evs = [Some (JBool False), Some (JBool False)]) \<and>
   (\<exists>evs. generate_stream (\<lambda>n. ''t'') ''m''
             (map RecvOk [text_chunk ''a'' '''', text_chunk ''b'' ''''] @
              RecvErr (Error ''reset'') #
              [RecvOk (text_chunk ''c'' ''''), RecvOk (text_chunk ''d'' ''''),
               RecvOk (text_chunk ''e'' ''stop''), RecvEOF]) =
             (evs @ [error_event (Error ''reset'')], ABORTED) \<and>
           map done_flag evs = [Some (JBool False), Some (JBool False)])"
proof -
  have h: "\<forall>c\<in>set [text_chunk ''a'' '''', text_chunk ''b'' '''']. StreamChoices c \<noteq> []"
    by (simp add: text_chunk_def)
  have r: "replicate (length [text_chunk ''a'' '''', text_chunk ''b'' ''''])
             (Some (JBool False)) = [Some (JBool False), Some (JBool False)]"
    by (simp add: numeral_2_eq_2)
  note t = stream_error_aborts[OF h, of "\<lambda>n. ''t''" "''m''" "Error ''reset''"
         "[RecvOk (text_chunk ''c'' ''''), RecvOk (text_chunk ''d'' ''''),
           RecvOk (text_chunk ''e'' ''stop''), RecvEOF]", unfolded r]
  from t obtain evs where evs:
    "chat_stream (\<lambda>n. ''t'') ''m''
       (map RecvOk [text_chunk ''a'' '''', text_chunk ''b'' ''''] @
        RecvErr (Error ''reset'') #
        [RecvOk (text_chunk ''c'' ''''), RecvOk (text_chunk ''d'' ''''),
         RecvOk (text_chunk ''e'' ''stop''), RecvEOF]) =
       (evs @ [error_event (Error ''reset'')], ABORTED)"
    "map done_flag evs = [Some (JBool False), Some (JBool False)]"
    by (elim conjE exE)
  from t obtain gvs where gvs:
    "generate_stream (\<lambda>n. ''t'') ''m''
       (map RecvOk [text_chunk ''a'' '''', text_chunk ''b'' ''''] @
        RecvErr (Error ''reset'') #
        [RecvOk (text_chunk ''c'' ''''), RecvOk (text_chunk ''d'' ''''),
         RecvOk (text_chunk ''e'' ''stop''), RecvEOF]) =
       (gvs @ [error_event (Error ''reset'')], ABORTED)"
    "map done_flag gvs = [Some (JBool False), Some (JBool False)]"
    by (elim conjE exE)
  have h': "StreamChoices (text_chunk ''a'' '''') \<noteq> []"
    and h'': "StreamChoices (text_chunk ''b'' '''') \<noteq> []"
    using h by simp_all
  from evs gvs h' h'' show ?thesis by (intro conjI exI)
qed

subsection \<open>The final line\<close>

lemma track_finish_first:
  "track_finish c lfr = (if first_finish c = '''' then lfr else first_finish c)"
  by (simp add: track_finish_def first_finish_def split: list.splits)

lemma fold_track_finish:
  "fold track_finish chunks lfr =
     (case filter (\<lambda>r. r \<noteq> '''') (map first_finish chunks) of
        [] \<Rightarrow> lfr
      | r # rs \<Rightarrow> last (r # rs))"
proof (induction chunks arbitrary: lfr)
  case Nil
  then show ?case by simp
next
  case (Cons c chunks)
  have "fold track_finish (c # chunks) lfr = fold track_finish chunks (track_finish c lfr)"
    by simp
  also have "\<dots> = (case filter (\<lambda>r. r \<noteq> '''') (map first_finish chunks) of
                      [] \<Rightarrow> track_finish c lfr
                    | r # rs \<Rightarrow> last (r # rs))"
    by (rule Cons.IH)
  also have "\<dots> = (case filter (\<lambda>r. r \<noteq> '''') (map first_finish (c # chunks)) of
                      [] \<Rightarrow> lfr
                    | r # rs \<Rightarrow> last (r # rs))"
    by (simp add: track_finish_first split: list.splits)
  finally show ?case .
qed

text \<open>
  On \<open>/api/chat\<close> the final line carries the last non-empty finish reason of the first
  choices, \<open>stop\<close> when there is none, an empty content and zeroed counters.
\<close>

lemma chat_terminal_event:
  assumes "\<forall>c\<in>set chunks. StreamChoices c \<noteq> []"
  shows "\<exists>evs. chat_stream now m (map RecvOk chunks @ RecvEOF # rest) =
           (evs @ [chat_final_event m (now (length chunks)) (last_finish_reason chunks)], DONE) \<and>
           length evs = length chunks"
proof -
  from chat_loop_chunks[OF assms, of now m "RecvEOF # rest" "[]" "''''"]
  obtain evs where evs:
    "chat_stream_loop now m (map RecvOk chunks @ RecvEOF # rest) [] '''' =
       chat_stream_loop now m (RecvEOF # rest) ([] @ evs) (fold track_finish chunks '''')"
    "map done_flag evs = replicate (length chunks) (Some (JBool False))"
    by blast
  from evs(2) have len: "length evs = length chunks"
    by (metis length_map length_replicate)
  have fin: "(if fold track_finish chunks '''' = '''' then ''stop''
              else fold track_finish chunks '''') = last_finish_reason chunks"
  proof (cases "filter (\<lambda>r. r \<noteq> '''') (map first_finish chunks)")
    case Nil
    then show ?thesis by (simp add: fold_track_finish last_finish_reason_def)
  next
    case (Cons r rs)
    then have "last (r # rs) \<in> set (filter (\<lambda>r. r \<noteq> '''') (map first_finish chunks))"
      by (metis last_in_set list.distinct(1))
    then have "last (r # rs) \<noteq> ''''" by simp
    then show ?thesis using Cons
      by (simp add: fold_track_finish last_finish_reason_def del: last.simps)
  qed
  have "chat_stream now m (map RecvOk chunks @ RecvEOF # rest) =
          (evs @ [chat_final_event m (now (length evs))
                    (if fold track_finish chunks '''' = '''' then ''stop''
                     else fold track_finish chunks '''')], DONE)"
    using evs(1) by (simp add: chat_stream_def)
  then show ?thesis using len fin by simp
qed

lemma chat_final_event_fields:
  "chat_text (chat_final_event m t r) = Some ''''"
  "field ''finish_reason'' (chat_final_event m t r) = Some (JString r)"
  "usage_counters (chat_final_event m t r) = replicate 5 (Some (JNumber 0))"
  by (simp_all add: chat_text_def field_def chat_final_event_def usage_counters_def
      numeral_eq_Suc)

lemma generate_final_event_fields:
  "generate_text (generate_final_event m t) = Some ''''"
  "field ''finish_reason'' (generate_final_event m t) = None"
  "field ''done_reason'' (generate_final_event m t) = None"
  "usage_counters (generate_final_event m t) = replicate 5 (Some (JNumber 0))"
  "field ''prompt_eval_duration'' (generate_final_event m t) = Some (JNumber 0)"
  by (simp_all add: generate_text_def field_def generate_final_event_def usage_counters_def
      numeral_eq_Suc)

text \<open>
  C3 on \<open>/api/generate\<close>: the backend sends one chunk with the finish reason \<open>length\<close> and
  then \<open>io.EOF\<close>. The handler writes the delta line and the final line; the final line
  has an empty response and zeroed counters but no finish reason at all, although the
  loop has recorded \<open>length\<close>. The chat handler, on the same stream, writes
  \<open>finish_reason = length\<close>.
\<close>

theorem generate_final_line_drops_finish_reason:
  "generate_stream (\<lambda>n. ''t'') ''m'' [RecvOk (text_chunk ''Hi'' ''length''), RecvEOF] =
     ([generate_chunk_event ''m'' ''t'' ''Hi'',
       JObject [(''model'', JString ''m''),
                (''created_at'', JString ''t''),
                (''response'', JString ''''),
                (''done'', JBool True),
                (''context'', JArray [JNumber 1, JNumber 2, JNumber 3]),
                (''total_duration'', JNumber 0),
                (''load_duration'', JNumber 0),
                (''prompt_eval_count'', JNumber 0),
                (''prompt_eval_duration'', JNumber 0),
                (''eval_count'', JNumber 0),
                (''eval_duration'', JNumber 0)]], DONE) \<and>
   field ''finish_reason''
     (last (fst (generate_stream (\<lambda>n. ''t'') ''m''
                   [RecvOk (text_chunk ''Hi'' ''length''), RecvEOF]))) = None \<and>
   generate_stream_loop (\<lambda>n. ''t'') ''m'' [RecvOk (text_chunk ''Hi'' ''length''), RecvEOF] [] '''' =
     (Break, [generate_chunk_event ''m'' ''t'' ''Hi''], ''length'') \<and>
   field ''finish_reason''
     (last (fst (chat_stream (\<lambda>n. ''t'') ''m''
                   [RecvOk (text_chunk ''Hi'' ''length''), RecvEOF]))) = Some (JString ''length'')"
  by (simp add: generate_stream_def chat_stream_def text_chunk_def track_finish_def field_def
      generate_final_event_def chat_final_event_def Let_def)


subsection \<open>Chunks without choices\<close>

lemma chat_loop_no_panic:
  "\<forall>r\<in>set stream. \<forall>c. r = RecvOk c \<longrightarrow> StreamChoices c \<noteq> [] \<Longrightarrow>
   fst (chat_stream_loop now m stream w lfr) \<noteq> Panic"
proof (induction stream arbitrary: w lfr)
  case Nil
  then show ?case by simp
next
  case (Cons r stream)
  then show ?case
    by (cases r) (auto simp: Let_def split: list.splits)
qed

lemma generate_loop_no_panic:
  "\<forall>r\<in>set stream. \<forall>c. r = RecvOk c \<longrightarrow> StreamChoices c \<noteq> [] \<Longrightarrow>
   fst (generate_stream_loop now m stream w lfr) \<noteq> Panic"
proof (induction stream arbitrary: w lfr)
  case Nil
  then show ?case by simp
next
  case (Cons r stream)
  then show ?case
    by (cases r) (auto simp: Let_def split: list.splits)
qed

lemma chat_stream_panic_iff:
  "snd (chat_stream now m stream) = PANIC \<longleftrightarrow>
   fst (chat_stream_loop now m stream [] '''') = Panic"
  by (auto simp: chat_stream_def Let_def split: prod.splits loop_exit.splits)

lemma generate_stream_panic_iff:
  "snd (generate_stream now m stream) = PANIC \<longleftrightarrow>
   fst (generate_stream_loop now m stream [] '''') = Panic"
  by (auto simp: generate_stream_def Let_def split: prod.splits loop_exit.splits)

text \<open>
  C10: in both streaming loops only the read of the finish reason is guarded by
  \<open>len(response.Choices) > 0\<close>. When every chunk the backend delivers has a choice, the
  loops never reach the index panic; a chunk without choices, reached after chunks that
  have one, makes the handler panic at \<open>response.Choices[0]\<close>, after the lines of the
  earlier chunks and before any line for this one.
\<close>

theorem stream_panics_on_empty_choices:
  "((\<forall>r\<in>set stream. \<forall>c. r = RecvOk c \<longrightarrow> StreamChoices c \<noteq> []) \<longrightarrow>
      snd (chat_stream now m stream) \<noteq> PANIC \<and>
      snd (generate_stream now m stream) \<noteq> PANIC) \<and>
   ((\<forall>c\<in>set chunks. StreamChoices c \<noteq> []) \<and> StreamChoices bad = [] \<longrightarrow>
      (\<exists>evs. chat_stream now m (map RecvOk chunks @ RecvOk bad # rest) = (evs, PANIC) \<and>
             map chat_text evs = map delta_text chunks) \<and>
      (\<exists>evs. generate_stream now m (map RecvOk chunks @ RecvOk bad # rest) = (evs, PANIC) \<and>
             map generate_text evs = map delta_text chunks))"
proof (intro conjI impI)
  assume "\<forall>r\<in>set stream. \<forall>c. r = RecvOk c \<longrightarrow> StreamChoices c \<noteq> []"
  then show "snd (chat_stream now m stream) \<noteq> PANIC"
    and "snd (generate_stream now m stream) \<noteq> PANIC"
    by (simp_all add: chat_stream_panic_iff generate_stream_panic_iff chat_loop_no_panic
        generate_loop_no_panic)
next
  assume a: "(\<forall>c\<in>set chunks. StreamChoices c \<noteq> []) \<and> StreamChoices bad = []"
  then have ch: "\<forall>c\<in>set chunks. StreamChoices c \<noteq> []" and bad: "StreamChoices bad = []"
    by simp_all
  from chat_loop_chunks[OF ch, of now m "RecvOk bad # rest" "[]" "''''"]
  obtain evs where evs:
    "chat_stream_loop now m (map RecvOk chunks @ RecvOk bad # rest) [] '''' =
       chat_stream_loop now m (RecvOk bad # rest) ([] @ evs) (fold track_finish chunks '''')"
    "map chat_text evs = map delta_text chunks"
    by blast
  have "chat_stream now m (map RecvOk chunks @ RecvOk bad # rest) = (evs, PANIC)"
    using evs(1) bad by (simp add: chat_stream_def Let_def)
  with evs(2)
  show "\<exists>evs. chat_stream now m (map RecvOk chunks @ RecvOk bad # rest) = (evs, PANIC) \<and>
              map chat_text evs = map delta_text chunks"
    by blast
  from generate_loop_chunks[OF ch, of now m "RecvOk bad # rest" "[]" "''''"]
  obtain gvs where gvs:
    "generate_stream_loop now m (map RecvOk chunks @ RecvOk bad # rest) [] '''' =
       generate_stream_loop now m (RecvOk bad # rest) ([] @ gvs) (fold track_finish chunks '''')"
    "map generate_text gvs = map delta_text chunks"
    by blast
  have "generate_stream now m (map RecvOk chunks @ RecvOk bad # rest) = (gvs, PANIC)"
    using gvs(1) bad by (simp add: generate_stream_def Let_def)
  with gvs(2)
  show "\<exists>evs. generate_stream now m (map RecvOk chunks @ RecvOk bad # rest) = (evs, PANIC) \<and>
              map generate_text evs = map delta_text chunks"
    by blast
qed

theorem stream_panics_on_empty_choices_witness:
  "StreamChoices (text_chunk ''Hi'' ''stop'') \<noteq> [] \<and>
   snd (chat_stream (\<lambda>n. ''t'') ''m'' [RecvOk (text_chunk ''Hi'' ''stop''), RecvEOF]) \<noteq> PANIC \<and>
   snd (generate_stream (\<lambda>n. ''t'') ''m'' [RecvOk (text_chunk ''Hi'' ''stop''), RecvEOF]) \<noteq> PANIC \<and>
   StreamChoices (text_chunk ''Hi'' '''') \<noteq> [] \<and>
   StreamChoices empty_chunk = [] \<and>
   (\<exists>evs. chat_stream (\<lambda>n. ''t'') ''m''
            (map RecvOk [text_chunk ''Hi'' ''''] @ RecvOk empty_chunk # [RecvEOF]) = (evs, PANIC) \<and>
          map chat_text evs = map delta_text [text_chunk ''Hi'' '''']) \<and>
   (\<exists>evs. generate_stream (\<lambda>n. ''t'') ''m''
            (map RecvOk [text_chunk ''Hi'' ''''] @ RecvOk empty_chunk # [RecvEOF]) = (evs, PANIC) \<and>
          map generate_text evs = map delta_text [text_chunk ''Hi'' ''''])"
proof -
  have h1: "\<forall>r\<in>set [RecvOk (text_chunk ''Hi'' ''stop''), RecvEOF].
              \<forall>c. r = RecvOk c \<longrightarrow> StreamChoices c \<noteq> []"
    by (simp add: text_chunk_def)
  have h2: "(\<forall>c\<in>set [text_chunk ''Hi'' '''']. StreamChoices c \<noteq> []) \<and>
            StreamChoices empty_chunk = []"
    by (simp add: text_chunk_def empty_chunk_def)
  note t = stream_panics_on_empty_choices[of "[RecvOk (text_chunk ''Hi'' ''stop''), RecvEOF]"
             "\<lambda>n. ''t''" "''m''" "[text_chunk ''Hi'' '''']" empty_chunk "[RecvEOF]"]
  have h1': "StreamChoices (text_chunk ''Hi'' ''stop'') \<noteq> []"
    by (simp add: text_chunk_def)
  have h2': "StreamChoices (text_chunk ''Hi'' '''') \<noteq> []" "StreamChoices empty_chunk = []"
    using h2 by simp_all
  from t[THEN conjunct1, THEN mp, OF h1] t[THEN conjunct2, THEN mp, OF h2] h1' h2'
  show ?thesis by (intro conjI) (elim conjE, assumption)+
qed


section \<open>Validation in the handlers\<close>

text \<open>A body that does not bind is answered with 400 before anything is sent upstream.\<close>

lemma unbound_request_rejected:
  "generate_handler e prov None = (JSON 400 (error_body ''Invalid JSON payload''), prov)"
  "chat_handler e prov None = (JSON 400 (error_body ''Invalid JSON payload''), prov)"
  by (simp_all add: generate_handler_def chat_handler_def)

lemma GetFullModelName_client:
  "client (snd (GetFullModelName e prov alias)) =
     (if modelNames prov = [] then client prov @ [CallListModels] else client prov)"
  by (cases "ListModels e")
     (simp_all add: GetFullModelName_def GetModels_ok GetModels_fail split: option.splits)

lemma GetFullModelName_cached_ok:
  "modelNames prov \<noteq> [] \<Longrightarrow> \<exists>r. GetFullModelName e prov alias = (Inr r, prov)"
  by (simp add: GetFullModelName_def split: option.splits)

text \<open>
  A body that binds is never answered with 400 by \<open>/api/generate\<close>, whatever its fields
  hold, and the handler always sends at least one request upstream for it.
\<close>

lemma generate_handler_no_validation:
  "status (fst (generate_handler e prov (Some request))) \<noteq> 400 \<and>
   client (snd (generate_handler e prov (Some request))) \<noteq> client prov"
proof (cases "modelNames prov = []")
  case True
  have c: "client (snd (GetFullModelName e prov (gen_Model request))) =
             client prov @ [CallListModels]"
    using True by (simp add: GetFullModelName_client)
  show ?thesis
    using c
    by (cases "GetFullModelName e prov (gen_Model request)")
       (auto simp: generate_handler_def Let_def JSON_def Chat_def ChatStream_def
             stream_status_def
             split: sum.splits prod.splits option.splits)
next
  case False
  from GetFullModelName_cached_ok[OF False, of e "gen_Model request"]
  obtain r where r: "GetFullModelName e prov (gen_Model request) = (Inr r, prov)" by blast
  show ?thesis
    using r
    by (auto simp: generate_handler_def Let_def JSON_def Chat_def ChatStream_def
             stream_status_def
             split: sum.splits prod.splits option.splits)
qed

text \<open>
  A handler that panics before its first line is answered with 500 by the recovery
  middleware; after a line has been written the status stays 200.
\<close>

lemma stream_status_cases:
  "stream_status [] PANIC = 500"
  "w \<noteq> [] \<Longrightarrow> stream_status w fin = 200"
  "fin \<noteq> PANIC \<Longrightarrow> stream_status w fin = 200"
  by (simp_all add: stream_status_def)

text \<open>
  C6 at a request without a model: the body \<open>{"prompt": "hi"}\<close> on \<open>/api/generate\<close> and
  the body \<open>{"messages": [{"role": "user", "content": "hi"}]}\<close> on \<open>/api/chat\<close>, with
  an empty cache. Neither handler answers with a client error: each fetches the
  catalog, resolves the empty model name to the first catalog entry, opens a chat
  stream on it and streams the answer with status 200.
\<close>

theorem missing_model_reaches_upstream:
  "status (fst (generate_handler demo_env \<lparr> client = [], modelNames = [] \<rparr>
     (Some \<lparr> gen_Model = '''', gen_Prompt = ''hi'', gen_Stream = None, gen_System = '''' \<rparr>)))
     = 200 \<and>
   ending (fst (generate_handler demo_env \<lparr> client = [], modelNames = [] \<rparr>
     (Some \<lparr> gen_Model = '''', gen_Prompt = ''hi'', gen_Stream = None, gen_System = '''' \<rparr>)))
     = DONE \<and>
   client (snd (generate_handler demo_env \<lparr> client = [], modelNames = [] \<rparr>
     (Some \<lparr> gen_Model = '''', gen_Prompt = ''hi'', gen_Stream = None, gen_System = '''' \<rparr>)))
     = [CallListModels,
        CallChatStream [\<lparr> Role = ''user'', Content = ''hi'' \<rparr>] ''meta/llama-3-70b-instruct''] \<and>
   status (fst (chat_handler demo_env \<lparr> client = [], modelNames = [] \<rparr>
     (Some \<lparr> chat_Model = '''', chat_Messages = [\<lparr> Role = ''user'', Content = ''hi'' \<rparr>],
             chat_Stream = None \<rparr>)))
     = 200 \<and>
   ending (fst (chat_handler demo_env \<lparr> client = [], modelNames = [] \<rparr>
     (Some \<lparr> chat_Model = '''', chat_Messages = [\<lparr> Role = ''user'', Content = ''hi'' \<rparr>],
             chat_Stream = None \<rparr>)))
     = DONE \<and>
   client (snd (chat_handler demo_env \<lparr> client = [], modelNames = [] \<rparr>
     (Some \<lparr> chat_Model = '''', chat_Messages = [\<lparr> Role = ''user'', Content = ''hi'' \<rparr>],
             chat_Stream = None \<rparr>)))
     = [CallListModels,
        CallChatStream [\<lparr> Role = ''user'', Content = ''hi'' \<rparr>] ''meta/llama-3-70b-instruct'']"
  by code_simp


end
